theory Spec2Isabelle
  imports Complex_Main "HOL-Library.Word" "HOL-Library.Signed_Division"
begin

section \<open>The Art-Net vibration motor controller (Berlin final/motor/motor.ino)\<close>

text \<open>
  The sketch keeps its state in global variables, mutated by the Art-Net callback
  \<open>onDmxFrame\<close> and by \<open>loop\<close>. The embedding passes that state explicitly as
  a record. Machine integers keep their width: \<open>uint8_t\<close> is \<open>8 word\<close>,
  \<open>uint16_t\<close> is \<open>16 word\<close>, \<open>uint32_t\<close> and \<open>unsigned long\<close> (32 bits on the
  ESP32) are \<open>32 word\<close>. The \<open>int\<close> variable \<open>currentPwm\<close> is an \<open>int\<close>: every
  value the sketch stores there has passed \<open>constrain(val, 0, 255)\<close>.

  The calls the sketch makes to the hardware (\<open>ledcWrite\<close> on the PWM pin,
  \<open>digitalWrite\<close> on the direction pin) are recorded, newest first, in the field
  \<open>sink\<close>. Serial logging is left out: no state depends on it.
\<close>

subsection \<open>Configuration constants (lines 28--60)\<close>

definition ARTNET_UNIVERSE :: "16 word" where
  "ARTNET_UNIVERSE = 0"

definition MOTOR_CHANNEL :: "16 word" where
  "MOTOR_CHANNEL = 2"

definition SAMPLE_HZ :: int where
  "SAMPLE_HZ = 40"

definition SAMPLE_INTERVAL_MS :: int where
  "SAMPLE_INTERVAL_MS = 1000 sdiv SAMPLE_HZ"

definition DEFAULT_AMPLITUDE :: int where
  "DEFAULT_AMPLITUDE = 230"

definition NOISE_STEP_DEFAULT :: "32 word" where
  "NOISE_STEP_DEFAULT = 20000"

text \<open>
  \<open>SMOOTH_ALPHA\<close> is the single-precision literal \<open>0.28f\<close>, and the sketch evaluates
  the smoothing expression in \<open>float\<close>. The sampler below evaluates it in the reals, at
  the decimal value of the literal; \<open>smooth_f32\<close> further down is the single-precision
  evaluation. Lemma \<open>smooth_f32_shipped\<close> shows that for this factor both give the same
  integer for every duty and target in \<open>[0,255]\<close>, so the duty the sampler writes is the
  duty of the sketch.
\<close>

definition SMOOTH_ALPHA :: real where
  "SMOOTH_ALPHA = 28 / 100"

definition DMX_TIMEOUT_MS :: "32 word" where
  "DMX_TIMEOUT_MS = 30000"

definition ZERO_FRAMES_TO_OFF :: "8 word" where
  "ZERO_FRAMES_TO_OFF = 5"

subsection \<open>State (lines 64--78) and the output sink\<close>

datatype sink_write =
    LedcWrite int       \<comment> \<open>\<open>ledcWrite(PWM_PIN, duty)\<close>\<close>
  | DigitalWrite bool   \<comment> \<open>\<open>digitalWrite(DIR_PIN, level)\<close>, \<open>LOW\<close> is \<open>False\<close>\<close>

record controller =
  motorRunning :: bool
  currentPwm :: int
  lastDmxMillis :: "32 word"
  lastSampleMillis :: "32 word"
  motorLevel :: "8 word"
  noisePos :: "32 word"
  noiseStep :: "32 word"
  zeroFrameCount :: "8 word"
  sink :: "sink_write list"

text \<open>The globals as their initialisers leave them, before \<open>setup\<close> runs.\<close>

definition boot :: controller where
  "boot = \<lparr> motorRunning = False, currentPwm = 0, lastDmxMillis = 0,
            lastSampleMillis = 0, motorLevel = 0, noisePos = 0,
            noiseStep = NOISE_STEP_DEFAULT, zeroFrameCount = 0, sink = [] \<rparr>"

text \<open>The duty of the most recent \<open>ledcWrite\<close>, if there was one.\<close>

fun last_duty :: "sink_write list \<Rightarrow> int option" where
  "last_duty [] = None"
| "last_duty (LedcWrite d # ws) = Some d"
| "last_duty (DigitalWrite b # ws) = last_duty ws"

text \<open>All duties written so far.\<close>

fun duties :: "sink_write list \<Rightarrow> int list" where
  "duties [] = []"
| "duties (LedcWrite d # ws) = d # duties ws"
| "duties (DigitalWrite b # ws) = duties ws"

subsection \<open>Library functions the sketch calls\<close>

text \<open>
  \<open>constrain\<close> is the Arduino macro
  \<open>((amt)<(low)?(low):((amt)>(high)?(high):(amt)))\<close>.
\<close>

definition constrain :: "int \<Rightarrow> int \<Rightarrow> int \<Rightarrow> int" where
  "constrain amt low high = (if amt < low then low else if amt > high then high else amt)"

text \<open>
  \<open>map\<close> is the Arduino core function on \<open>long\<close>; it is not part of the sketch. It is
  written here as the ESP32 core defines it: integer arithmetic, the quotient
  truncated towards zero. The products in this sketch stay far below \<open>2^31\<close>.
\<close>

definition map_long :: "int \<Rightarrow> int \<Rightarrow> int \<Rightarrow> int \<Rightarrow> int \<Rightarrow> int" where
  "map_long x in_min in_max out_min out_max =
     (let run = in_max - in_min in
      if run = 0 then - 1
      else let rise = out_max - out_min; delta = x - in_min
           in (delta * rise) sdiv run + out_min)"

text \<open>
  C's \<open>round\<close> rounds halfway cases away from zero (HOL's \<open>round\<close> rounds them up).
\<close>

definition c_round :: "real \<Rightarrow> int" where
  "c_round x = (if 0 \<le> x then \<lfloor>x + 1 / 2\<rfloor> else \<lceil>x - 1 / 2\<rceil>)"

subsection \<open>Helpers (lines 82--103)\<close>

definition writePwm :: "int \<Rightarrow> controller \<Rightarrow> controller" where
  "writePwm val s =
     (let v = constrain val 0 255
      in s\<lparr> currentPwm := v, sink := LedcWrite v # sink s \<rparr>)"

definition setMotorOff :: "controller \<Rightarrow> controller" where
  "setMotorOff s =
     (let s1 = s\<lparr> motorRunning := False, motorLevel := 0 \<rparr>;
          s2 = writePwm 0 s1
      in s2\<lparr> sink := DigitalWrite False # sink s2 \<rparr>)"

text \<open>
  \<open>startMotor\<close> reads \<open>random()\<close> and \<open>millis()\<close>; the values read are the
  arguments \<open>rnd\<close> and \<open>t\<close>.
\<close>

definition startMotor :: "32 word \<Rightarrow> 32 word \<Rightarrow> controller \<Rightarrow> controller" where
  "startMotor rnd t s = s\<lparr> motorRunning := True, noisePos := rnd, lastSampleMillis := t \<rparr>"

subsection \<open>The Art-Net callback (lines 107--145)\<close>

text \<open>
  \<open>data\<close> is a pointer into the receive buffer: the embedding takes the bytes
  readable through it as a function of the index. \<open>t_dmx\<close> is the value of
  \<open>millis()\<close> read at line 114; \<open>rnd\<close> and \<open>t_start\<close> are the values
  \<open>startMotor\<close> reads, used only when it is called.
\<close>

definition onDmxFrame ::
  "16 word \<Rightarrow> 16 word \<Rightarrow> 8 word \<Rightarrow> (nat \<Rightarrow> 8 word) \<Rightarrow>
     32 word \<Rightarrow> 32 word \<Rightarrow> 32 word \<Rightarrow> controller \<Rightarrow> controller" where
  "onDmxFrame universe len sequence data t_dmx rnd t_start s =
     (if universe \<noteq> ARTNET_UNIVERSE then s
      else if MOTOR_CHANNEL < 1 \<or> MOTOR_CHANNEL > len then s
      else
        let val = data (nat (uint MOTOR_CHANNEL - 1));
            s1 = s\<lparr> lastDmxMillis := t_dmx \<rparr>
        in if val = 0 then
             let s2 = s1\<lparr> zeroFrameCount := zeroFrameCount s1 + 1 \<rparr>
             in if zeroFrameCount s2 \<ge> ZERO_FRAMES_TO_OFF then
                  (if motorRunning s2 then setMotorOff s2 else s2)\<lparr> zeroFrameCount := 0 \<rparr>
                else s2
           else
             let s2 = s1\<lparr> zeroFrameCount := 0, motorLevel := val \<rparr>
             in if \<not> motorRunning s2 then startMotor rnd t_start s2 else s2)"

subsection \<open>setup and loop (lines 168--224)\<close>

text \<open>
  The part of \<open>setup\<close> that touches the state: the direction pin is driven low, duty 0
  is written, and \<open>setMotorOff\<close> is called.
\<close>

definition setup_motor :: "controller \<Rightarrow> controller" where
  "setup_motor s = setMotorOff (s\<lparr> sink := LedcWrite 0 # DigitalWrite False # sink s \<rparr>)"

text \<open>The timeout failsafe, lines 198--203.\<close>

definition watchdog :: "32 word \<Rightarrow> controller \<Rightarrow> controller" where
  "watchdog now s =
     (if motorRunning s \<and> now - lastDmxMillis s \<ge> DMX_TIMEOUT_MS
      then (setMotorOff s)\<lparr> zeroFrameCount := 0 \<rparr>
      else s)"

text \<open>The three values computed at lines 211--215.\<close>

definition effectiveAmp :: "8 word \<Rightarrow> 8 word" where
  "effectiveAmp level = word_of_int (map_long (uint level) 0 255 0 DEFAULT_AMPLITUDE)"

definition target_duty :: "8 word \<Rightarrow> 8 word \<Rightarrow> int" where
  "target_duty noiseVal amp = (uint noiseVal * uint (ucast amp :: 16 word)) sdiv 255"

definition smooth :: "real \<Rightarrow> int \<Rightarrow> int \<Rightarrow> int" where
  "smooth alpha target pwm =
     c_round (alpha * real_of_int target + (1 - alpha) * real_of_int pwm)"

text \<open>
  The noise and PWM update, lines 205--221. \<open>inoise8\<close> is FastLED's noise function,
  a parameter of the embedding.
\<close>

definition sampler :: "(32 word \<Rightarrow> 8 word) \<Rightarrow> 32 word \<Rightarrow> controller \<Rightarrow> controller" where
  "sampler inoise8 now s =
     (if motorRunning s \<and> now - lastSampleMillis s \<ge> word_of_int SAMPLE_INTERVAL_MS then
        let s1 = s\<lparr> noisePos := noisePos s + noiseStep s \<rparr>;
            noiseVal = inoise8 (noisePos s1);
            amp = effectiveAmp (motorLevel s1);
            target = target_duty noiseVal amp;
            smoothed = smooth SMOOTH_ALPHA target (currentPwm s1);
            s2 = s1\<lparr> sink := DigitalWrite False # sink s1 \<rparr>;
            s3 = writePwm smoothed s2
        in s3\<lparr> lastSampleMillis := now \<rparr>
      else s)"

text \<open>
  One Art-Net frame as \<open>artnet.read()\<close> hands it to the callback, together with the
  clock and random values the callback reads while it runs.
\<close>

record dmx_call =
  universe :: "16 word"
  len :: "16 word"
  sequence :: "8 word"
  data :: "nat \<Rightarrow> 8 word"
  t_dmx :: "32 word"
  rnd :: "32 word"
  t_start :: "32 word"

definition deliver :: "dmx_call \<Rightarrow> controller \<Rightarrow> controller" where
  "deliver c s =
     onDmxFrame (universe c) (len c) (sequence c) (data c) (t_dmx c) (rnd c) (t_start c) s"

text \<open>
  One iteration of \<open>loop\<close>: \<open>artnet.read()\<close> delivers at most one frame, then the
  clock is read once and the watchdog and the sampler run against it.
\<close>

definition loop_iter ::
  "(32 word \<Rightarrow> 8 word) \<Rightarrow> dmx_call option \<Rightarrow> 32 word \<Rightarrow> controller \<Rightarrow> controller" where
  "loop_iter inoise8 pkt now s =
     (let s1 = (case pkt of None \<Rightarrow> s | Some c \<Rightarrow> deliver c s)
      in sampler inoise8 now (watchdog now s1))"

text \<open>A run of frames, delivered in order.\<close>

fun deliver_all :: "dmx_call list \<Rightarrow> controller \<Rightarrow> controller" where
  "deliver_all [] s = s"
| "deliver_all (c # cs) s = deliver_all cs (deliver c s)"

text \<open>
  The states the sketch can be in: after \<open>setup\<close>, and after any sequence of
  callback invocations, watchdog checks and sample checks. This allows every
  interleaving of the three, of which the iterations of \<open>loop\<close> are a part.
\<close>

inductive reachable :: "(32 word \<Rightarrow> 8 word) \<Rightarrow> controller \<Rightarrow> bool"
  for inoise8 :: "32 word \<Rightarrow> 8 word" where
  reach_setup: "reachable inoise8 (setup_motor boot)"
| reach_frame: "reachable inoise8 s \<Longrightarrow> reachable inoise8 (deliver c s)"
| reach_watchdog: "reachable inoise8 s \<Longrightarrow> reachable inoise8 (watchdog now s)"
| reach_sampler: "reachable inoise8 s \<Longrightarrow> reachable inoise8 (sampler inoise8 now s)"

text \<open>A frame is processed when it passes both checks at lines 108 and 111.\<close>

definition processed :: "dmx_call \<Rightarrow> bool" where
  "processed c \<longleftrightarrow> universe c = ARTNET_UNIVERSE \<and> \<not> (MOTOR_CHANNEL < 1 \<or> MOTOR_CHANNEL > len c)"

definition channel_value :: "dmx_call \<Rightarrow> 8 word" where
  "channel_value c = data c (nat (uint MOTOR_CHANNEL - 1))"

definition sample_due :: "32 word \<Rightarrow> controller \<Rightarrow> bool" where
  "sample_due now s \<longleftrightarrow>
     motorRunning s \<and> now - lastSampleMillis s \<ge> word_of_int SAMPLE_INTERVAL_MS"

subsection \<open>Single-precision arithmetic\<close>

text \<open>
  The smoothing expression at lines 214--215 is evaluated in \<open>float\<close>, IEEE 754
  binary32. \<open>f32\<close> rounds a real to the nearest binary32 value, ties to even:
  \<open>f32_norm\<close> scales the magnitude into \<open>[2^23, 2^24)\<close>, rounds it to an integer
  there and scales back; a magnitude that is still below \<open>2^23\<close> after 149 doublings
  is rounded on the grid of the subnormal numbers. Overflow to infinity is not
  modelled: the values of the sketch stay below \<open>2^9\<close>.
\<close>

definition round_even :: "real \<Rightarrow> int" where
  "round_even x =
     (let f = \<lfloor>x\<rfloor>
      in if x - of_int f < 1 / 2 then f
         else if 1 / 2 < x - of_int f then f + 1
         else if even f then f else f + 1)"

fun f32_norm :: "nat \<Rightarrow> real \<Rightarrow> real" where
  "f32_norm 0 x = of_int (round_even x)"
| "f32_norm (Suc k) x =
     (if 2 ^ 24 \<le> x then 2 * f32_norm k (x / 2)
      else if x < 2 ^ 23 then f32_norm k (2 * x) / 2
      else of_int (round_even x))"

definition f32 :: "real \<Rightarrow> real" where
  "f32 x = (if x < 0 then - f32_norm 149 (- x) else f32_norm 149 x)"

text \<open>
  The expression of the sketch,
  \<open>SMOOTH_ALPHA * (float)target + (1.0f - SMOOTH_ALPHA) * (float)currentPwm\<close>, with every
  step rounded on its own: the literal, the two conversions from \<open>int\<close>, the
  subtraction, the two products and the sum. \<open>round\<close> then rounds the result half away
  from zero.
\<close>

definition smooth_f32 :: "real \<Rightarrow> int \<Rightarrow> int \<Rightarrow> int" where
  "smooth_f32 alpha target pwm =
     (let a = f32 alpha
      in c_round (f32 (f32 (a * f32 (real_of_int target)) +
                       f32 (f32 (1 - a) * f32 (real_of_int pwm)))))"

subsection \<open>The formulas of the specification\<close>

text \<open>
  The specification gives the amplitude and the target as rounded quotients:
  \<open>effectiveAmplitude = round(level / 255 * maxAmplitude)\<close> and
  \<open>target = round(n * effectiveAmplitude / 255)\<close>. These two definitions follow
  its words; they are compared with \<open>effectiveAmp\<close> and \<open>target_duty\<close> above.
\<close>

definition spec_effectiveAmplitude :: "int \<Rightarrow> int \<Rightarrow> int" where
  "spec_effectiveAmplitude level maxAmplitude =
     round (real_of_int level / 255 * real_of_int maxAmplitude)"

definition spec_target :: "int \<Rightarrow> int \<Rightarrow> int" where
  "spec_target n effectiveAmplitude =
     round (real_of_int n * real_of_int effectiveAmplitude / 255)"

subsection \<open>Invariants\<close>

text \<open>
  The invariant of the reachable states: the duty is between 0 and the configured
  amplitude, the zero-frame counter is below its threshold, the last duty written to
  the sink is \<open>currentPwm\<close>, every duty ever written is within the amplitude, and a
  stopped controller has duty 0 and level 0.
\<close>

definition controller_inv :: "controller \<Rightarrow> bool" where
  "controller_inv s \<longleftrightarrow>
     0 \<le> currentPwm s \<and> currentPwm s \<le> DEFAULT_AMPLITUDE \<and>
     zeroFrameCount s < ZERO_FRAMES_TO_OFF \<and>
     last_duty (sink s) = Some (currentPwm s) \<and>
     (\<forall>d \<in> set (duties (sink s)). 0 \<le> d \<and> d \<le> DEFAULT_AMPLITUDE) \<and>
     (\<not> motorRunning s \<longrightarrow> currentPwm s = 0 \<and> motorLevel s = 0)"

text \<open>The ranges of the data model: duty and level in \<open>[0,255]\<close>, counter in \<open>[0,threshold]\<close>.\<close>

definition ranges_ok :: "controller \<Rightarrow> bool" where
  "ranges_ok s \<longleftrightarrow>
     0 \<le> currentPwm s \<and> currentPwm s \<le> 255 \<and>
     0 \<le> uint (motorLevel s) \<and> uint (motorLevel s) \<le> 255 \<and>
     zeroFrameCount s \<le> ZERO_FRAMES_TO_OFF"

subsection \<open>Example inputs\<close>

text \<open>
  A frame of universe \<open>u\<close> and length \<open>n\<close> whose channels all carry \<open>v\<close>,
  received at time \<open>t\<close>; and the state after \<open>setup\<close> and one frame of level 200
  at time 1000.
\<close>

definition frame_of :: "16 word \<Rightarrow> 16 word \<Rightarrow> 8 word \<Rightarrow> 32 word \<Rightarrow> dmx_call" where
  "frame_of u n v t =
     \<lparr> universe = u, len = n, sequence = 0, data = (\<lambda>i. v), t_dmx = t, rnd = 7, t_start = t \<rparr>"

definition running_state :: controller where
  "running_state = deliver (frame_of 0 512 200 1000) (setup_motor boot)"

text \<open>
  The running state with previous duty 100 and level 222: with noise value 255 its next
  target is 200.
\<close>

definition scenario_E :: controller where
  "scenario_E = running_state\<lparr> currentPwm := 100, motorLevel := 222 \<rparr>"

section \<open>Auxiliary facts\<close>

lemma sdiv_nonneg: "0 \<le> a \<Longrightarrow> 0 < b \<Longrightarrow> a sdiv b = a div (b::int)"
  by (cases "a = 0") (simp_all add: signed_divide_int_def)

lemma uint8_le_255: "uint (w :: 8 word) \<le> 255"
  using uint_bounded [of w] by simp

lemma map_long_level: "0 \<le> x \<Longrightarrow> map_long x 0 255 0 DEFAULT_AMPLITUDE = x * 230 div 255"
  by (simp add: map_long_def DEFAULT_AMPLITUDE_def sdiv_nonneg)

lemma uint_effectiveAmp: "uint (effectiveAmp level) = uint level * 230 div 255"
proof -
  have "uint level * 230 div 255 \<le> 230"
    using uint8_le_255 [of level] by linarith
  moreover have "0 \<le> uint level * 230 div 255"
    by (simp add: pos_imp_zdiv_nonneg_iff)
  ultimately have "uint (word_of_int (uint level * 230 div 255) :: 8 word) = uint level * 230 div 255"
    by (simp add: uint_word_of_int take_bit_int_eq_self)
  then show ?thesis
    by (simp add: effectiveAmp_def map_long_level)
qed

lemma effectiveAmp_le: "uint (effectiveAmp level) \<le> DEFAULT_AMPLITUDE"
  using uint8_le_255 [of level] by (simp add: uint_effectiveAmp DEFAULT_AMPLITUDE_def)

lemma target_duty_div: "target_duty n amp = uint n * uint amp div 255"
  by (simp add: target_duty_def sdiv_nonneg uint_up_ucast is_up)

lemma target_duty_bounds: "0 \<le> target_duty n amp \<and> target_duty n amp \<le> uint amp"
proof -
  have "uint n * uint amp \<le> 255 * uint amp"
    using uint8_le_255 [of n] by (simp add: mult_right_mono)
  then have "uint n * uint amp div 255 \<le> uint amp"
    by linarith
  moreover have "0 \<le> uint n * uint amp div 255"
    by (simp add: pos_imp_zdiv_nonneg_iff)
  ultimately show ?thesis
    by (simp add: target_duty_div)
qed

lemma c_round_eq_round: "0 \<le> x \<Longrightarrow> c_round x = round x"
  by (simp add: c_round_def round_def)

lemma c_round_between:
  assumes "real_of_int lo \<le> x" and "x \<le> real_of_int hi" 
  shows "lo \<le> c_round x \<and> c_round x \<le> hi"
  using assms unfolding c_round_def by (auto simp: le_floor_iff floor_le_iff ceiling_le_iff le_ceiling_iff; linarith)

lemma convex_between:
  fixes a b :: real
  assumes "0 \<le> alpha" "alpha \<le> 1"
  shows "min a b \<le> alpha * a + (1 - alpha) * b \<and> alpha * a + (1 - alpha) * b \<le> max a b"
proof -
  have 1: "alpha * a + (1 - alpha) * b \<le> alpha * max a b + (1 - alpha) * max a b"
    using assms by (intro add_mono mult_left_mono) auto
  have 2: "alpha * min a b + (1 - alpha) * min a b \<le> alpha * a + (1 - alpha) * b"
    using assms by (intro add_mono mult_left_mono) auto
  from 1 2 show ?thesis by (simp add: algebra_simps)
qed

lemma smooth_between:
  assumes "0 \<le> alpha" "alpha \<le> 1"
  shows "min target pwm \<le> smooth alpha target pwm \<and> smooth alpha target pwm \<le> max target pwm"
proof -
  let ?x = "alpha * real_of_int target + (1 - alpha) * real_of_int pwm"
  have "min (real_of_int target) (real_of_int pwm) \<le> ?x \<and> ?x \<le> max (real_of_int target) (real_of_int pwm)"
    using assms by (rule convex_between)
  then have "real_of_int (min target pwm) \<le> ?x \<and> ?x \<le> real_of_int (max target pwm)"
    by (simp add: min_def max_def split: if_splits)
  then show ?thesis
    unfolding smooth_def using c_round_between by blast
qed

lemma sampler_due:
  "sample_due now s \<Longrightarrow>
   sampler inoise8 now s =
     (let d = constrain (smooth SMOOTH_ALPHA
                (target_duty (inoise8 (noisePos s + noiseStep s)) (effectiveAmp (motorLevel s)))
                (currentPwm s)) 0 255
      in s\<lparr> currentPwm := d, lastSampleMillis := now, noisePos := noisePos s + noiseStep s,
            sink := LedcWrite d # DigitalWrite False # sink s \<rparr>)"
  by (simp add: sample_due_def sampler_def writePwm_def Let_def)

lemma sampler_idle: "\<not> sample_due now s \<Longrightarrow> sampler inoise8 now s = s"
  by (auto simp: sample_due_def sampler_def)

lemma smooth_perturbed:
  fixes x :: real
  assumes "0 \<le> target" and "0 \<le> pwm"
    and "\<bar>x - (SMOOTH_ALPHA * real_of_int target + (1 - SMOOTH_ALPHA) * real_of_int pwm)\<bar> < 1 / 50"
  shows "c_round x = smooth SMOOTH_ALPHA target pwm"
proof -
  define m where "m = 7 * target + 18 * pwm"
  define k where "k = (2 * m + 25) div 50"
  have m0: "0 \<le> m" using assms by (simp add: m_def)
  have exact: "SMOOTH_ALPHA * real_of_int target + (1 - SMOOTH_ALPHA) * real_of_int pwm = real_of_int m / 25"
    by (simp add: SMOOTH_ALPHA_def m_def)
  have "real_of_int m / 25 + 1 / 2 = real_of_int (2 * m + 25) / real_of_int 50"
    by simp
  then have "\<lfloor>real_of_int m / 25 + 1 / 2\<rfloor> = k"
    unfolding k_def by (simp only: floor_divide_of_int_eq)
  then have sm: "smooth SMOOTH_ALPHA target pwm = k"
    using m0 by (simp add: smooth_def exact c_round_def)
  have k0: "0 \<le> k" using m0 by (simp add: k_def pos_imp_zdiv_nonneg_iff)
  have lo: "50 * k \<le> 2 * m + 25" and hi: "2 * m + 25 < 50 * k + 50"
    unfolding k_def by presburger+
  have lo': "50 * k - 24 \<le> 2 * m" using lo by presburger
  have hi': "2 * m \<le> 50 * k + 24" using hi by presburger
  have rlo: "real_of_int k - 12 / 25 \<le> real_of_int m / 25"
    using lo' by (simp add: field_simps)
  have rhi: "real_of_int m / 25 \<le> real_of_int k + 12 / 25"
    using hi' by (simp add: field_simps)
  have xlo: "real_of_int k - 1 / 2 < x" and xhi: "x < real_of_int k + 1 / 2"
    using assms(3) rlo rhi unfolding exact by linarith+
  show ?thesis
  proof (cases "0 \<le> x")
    case True
    have "\<lfloor>x + 1 / 2\<rfloor> = k" using xlo xhi by (simp add: floor_unique)
    with True sm show ?thesis by (simp add: c_round_def)
  next
    case False
    with xlo k0 have "k = 0" by linarith
    moreover have "\<lceil>x - 1 / 2\<rceil> = 0" using xlo False \<open>k = 0\<close> by (simp add: ceiling_unique)
    ultimately show ?thesis using False sm by (simp add: c_round_def)
  qed
qed

lemma f32_norm_numeral:
  "f32_norm (numeral k) x =
     (if 2 ^ 24 \<le> x then 2 * f32_norm (pred_numeral k) (x / 2)
      else if x < 2 ^ 23 then f32_norm (pred_numeral k) (2 * x) / 2
      else of_int (round_even x))"
  by (simp add: numeral_eq_Suc)

lemma f32_norm_zero: "f32_norm k 0 = 0"
  by (induction k) (simp_all add: round_even_def)

lemma f32_zero: "f32 0 = 0"
  by (simp add: f32_def f32_norm_zero)

lemma round_even_err: "\<bar>real_of_int (round_even x) - x\<bar> \<le> 1 / 2"
proof -
  have "real_of_int \<lfloor>x\<rfloor> \<le> x" "x < real_of_int \<lfloor>x\<rfloor> + 1"
    by linarith+
  then show ?thesis
    by (auto simp: round_even_def Let_def)
qed

lemma f32_norm_err:
  "2 ^ 23 \<le> x * 2 ^ n \<Longrightarrow> x \<le> 2 ^ 24 * 2 ^ n \<Longrightarrow> \<bar>f32_norm n x - x\<bar> \<le> x / 2 ^ 24"
proof (induction n arbitrary: x)
  case 0
  then have "1 / 2 \<le> x / 2 ^ 24" by simp
  with round_even_err [of x] show ?case by simp
next
  case (Suc n)
  show ?case
  proof (cases "2 ^ 24 \<le> x")
    case True
    have "(1::real) \<le> 2 ^ n" by simp
    then have "2 ^ 23 * 1 \<le> (x / 2) * 2 ^ n"
      using True by (intro mult_mono) simp_all
    moreover have "x / 2 \<le> 2 ^ 24 * 2 ^ n"
      using Suc.prems(2) by simp
    ultimately have "\<bar>f32_norm n (x / 2) - x / 2\<bar> \<le> (x / 2) / 2 ^ 24"
      using Suc.IH [of "x / 2"] by simp
    then have "\<bar>2 * f32_norm n (x / 2) - x\<bar> \<le> x / 2 ^ 24"
      by linarith
    with True show ?thesis by simp
  next
    case False
    note hi = False
    show ?thesis
    proof (cases "x < 2 ^ 23")
      case True
      have d: "2 ^ 23 \<le> (2 * x) * 2 ^ n"
        using Suc.prems(1) by (simp add: mult.commute mult.left_commute)
      have "(1::real) \<le> 2 ^ n" by simp
      then have "2 ^ 24 * (1::real) \<le> 2 ^ 24 * 2 ^ n"
        by (intro mult_left_mono) simp_all
      moreover have "2 * x \<le> 2 ^ 24 * (1::real)"
        using True by simp
      ultimately have "2 * x \<le> 2 ^ 24 * 2 ^ n"
        by (rule order_trans [rotated])
      with d have "\<bar>f32_norm n (2 * x) - 2 * x\<bar> \<le> (2 * x) / 2 ^ 24"
        by (rule Suc.IH)
      then have "\<bar>f32_norm n (2 * x) / 2 - x\<bar> \<le> x / 2 ^ 24"
        by linarith
      with True hi show ?thesis by simp
    next
      case False
      then have "1 / 2 \<le> x / 2 ^ 24" by simp
      with round_even_err [of x] False hi show ?thesis by simp
    qed
  qed
qed

lemma f32_rel:
  assumes "1 / 8 \<le> x" and "x \<le> 1024"
  shows "\<bar>f32 x - x\<bar> \<le> x / 2 ^ 24"
proof -
  have "(2::real) ^ 23 \<le> (1 / 8) * 2 ^ 149" by simp
  also have "\<dots> \<le> x * 2 ^ 149"
    using assms(1) by (intro mult_right_mono) simp_all
  finally have lo: "2 ^ 23 \<le> x * 2 ^ 149" .
  have "x \<le> 2 ^ 24 * 2 ^ 149"
    using assms(2) by simp
  with lo have "\<bar>f32_norm 149 x - x\<bar> \<le> x / 2 ^ 24"
    by (rule f32_norm_err)
  with assms(1) show ?thesis by (simp add: f32_def)
qed

lemma f32_close:
  assumes "x = 0 \<or> 1 / 8 \<le> x" and "x \<le> 512"
  shows "\<bar>f32 x - x\<bar> \<le> 1 / 32768"
proof (cases "x = 0")
  case True
  then show ?thesis by (simp add: f32_zero)
next
  case False
  with assms have "1 / 8 \<le> x" by simp
  with assms(2) have "\<bar>f32 x - x\<bar> \<le> x / 2 ^ 24"
    by (intro f32_rel) simp_all
  with assms(2) show ?thesis by simp
qed

lemma mult_perturb:
  fixes a b a0 b0 :: real
  assumes "\<bar>a - a0\<bar> \<le> ea" and "\<bar>b - b0\<bar> \<le> eb" and "\<bar>b\<bar> \<le> bm" and "\<bar>a0\<bar> \<le> am"
  shows "\<bar>a * b - a0 * b0\<bar> \<le> ea * bm + am * eb"
proof -
  have "a * b - a0 * b0 = (a - a0) * b + a0 * (b - b0)"
    by (simp add: algebra_simps)
  then have "\<bar>a * b - a0 * b0\<bar> \<le> \<bar>a - a0\<bar> * \<bar>b\<bar> + \<bar>a0\<bar> * \<bar>b - b0\<bar>"
    by (simp add: abs_mult [symmetric]) 
  also have "\<dots> \<le> ea * bm + am * eb"
    using assms by (intro add_mono mult_mono) (auto intro: order_trans [OF abs_ge_zero])
  finally show ?thesis .
qed

lemma f32_of_level:
  assumes "0 \<le> v" and "v \<le> 255"
  shows "\<bar>f32 (real_of_int v) - real_of_int v\<bar> \<le> 1 / 32768 \<and>
         (v = 0 \<longrightarrow> f32 (real_of_int v) = 0) \<and>
         (v \<noteq> 0 \<longrightarrow> 99 / 100 \<le> f32 (real_of_int v)) \<and>
         0 \<le> f32 (real_of_int v) \<and> f32 (real_of_int v) \<le> 256"
proof -
  have "real_of_int v = 0 \<or> 1 / 8 \<le> real_of_int v"
    using assms(1) by (cases "v = 0") auto
  moreover have "real_of_int v \<le> 512"
    using assms(2) by simp
  ultimately have e: "\<bar>f32 (real_of_int v) - real_of_int v\<bar> \<le> 1 / 32768"
    by (rule f32_close)
  have z: "f32 (real_of_int v) = 0" if "v = 0"
    using that by (simp add: f32_zero)
  have p: "99 / 100 \<le> f32 (real_of_int v)" if "v \<noteq> 0"
  proof -
    from that assms(1) have "1 \<le> real_of_int v" by simp
    with e show ?thesis by linarith
  qed
  have r: "real_of_int v \<le> 255" "0 \<le> real_of_int v"
    using assms by simp_all
  from e r have "0 \<le> f32 (real_of_int v)" if "v \<noteq> 0"
    using p [OF that] by linarith
  moreover have "0 \<le> f32 (real_of_int v)" if "v = 0"
    using z [OF that] by simp
  moreover from e r have "f32 (real_of_int v) \<le> 256"
    by linarith
  ultimately show ?thesis
    using e z p by blast
qed

lemma f32_product:
  fixes a a0 t t0 :: real
  assumes a: "\<bar>a - a0\<bar> \<le> 1 / 8388608" "1 / 4 \<le> a0" "a0 \<le> 3 / 4"
    and t: "\<bar>t - t0\<bar> \<le> 1 / 32768" "t0 = 0 \<longrightarrow> t = 0" "t0 \<noteq> 0 \<longrightarrow> 99 / 100 \<le> t"
       "0 \<le> t" "t \<le> 256"
  shows "\<bar>f32 (a * t) - a0 * t0\<bar> \<le> 3 / 32768 \<and> 0 \<le> f32 (a * t) \<and>
         f32 (a * t) \<le> 257 \<and> (f32 (a * t) = 0 \<or> 1 / 8 \<le> f32 (a * t))"
proof -
  have abnd: "24 / 100 \<le> a" "a \<le> 1"
    using a by linarith+
  have "\<bar>a * t - a0 * t0\<bar> \<le> (1 / 8388608) * 256 + (3 / 4) * (1 / 32768)"
    using a t by (intro mult_perturb) auto
  then have pe: "\<bar>a * t - a0 * t0\<bar> \<le> 2 / 32768"
    by simp
  have up: "a * t \<le> 1 * 256"
    using abnd t by (intro mult_mono) auto
  have nn: "0 \<le> a * t"
    using abnd t by simp
  have lo: "a * t = 0 \<or> 1 / 8 \<le> a * t"
  proof (cases "t0 = 0")
    case True
    with t show ?thesis by simp
  next
    case False
    with t have "99 / 100 \<le> t" by simp
    then have "(24 / 100) * (99 / 100) \<le> a * t"
      using abnd by (intro mult_mono) auto
    then show ?thesis by simp
  qed
  from lo up have fe: "\<bar>f32 (a * t) - a * t\<bar> \<le> 1 / 32768"
    by (intro f32_close) auto
  have z: "f32 (a * t) = 0 \<or> 1 / 8 \<le> f32 (a * t)"
  proof (cases "t0 = 0")
    case True
    with t show ?thesis by (simp add: f32_zero)
  next
    case False
    with t have "99 / 100 \<le> t" by simp
    then have "(24 / 100) * (99 / 100) \<le> a * t"
      using abnd by (intro mult_mono) auto
    with fe have "1 / 8 \<le> f32 (a * t)" by linarith
    then show ?thesis by simp
  qed
  have "\<bar>f32 (a * t) - a0 * t0\<bar> \<le> 3 / 32768"
    using fe pe by linarith
  moreover have "0 \<le> f32 (a * t)"
    using z fe nn by linarith
  moreover have "f32 (a * t) \<le> 257"
    using fe up by linarith
  ultimately show ?thesis
    using z by blast
qed

lemma smooth_f32_shipped:
  assumes "0 \<le> target" and "target \<le> 255" and "0 \<le> pwm" and "pwm \<le> 255"
  shows "smooth_f32 SMOOTH_ALPHA target pwm = smooth SMOOTH_ALPHA target pwm"
proof -
  define A where "A = f32 (28 / 100)"
  define B where "B = f32 (1 - A)"
  define P where "P = f32 (A * f32 (real_of_int target))"
  define Q where "Q = f32 (B * f32 (real_of_int pwm))"
  have "\<bar>f32 (28 / 100) - 28 / 100\<bar> \<le> (28 / 100) / 2 ^ 24"
    by (rule f32_rel) simp_all
  also have "(28 / 100) / 2 ^ 24 \<le> (1::real) / 16777216"
    by simp
  finally have eA: "\<bar>A - 28 / 100\<bar> \<le> 1 / 16777216"
    by (simp only: A_def)
  then have "1 / 8 \<le> 1 - A" "1 - A \<le> 1024"
    by linarith+
  then have "\<bar>f32 (1 - A) - (1 - A)\<bar> \<le> (1 - A) / 2 ^ 24"
    by (rule f32_rel)
  also have "(1 - A) / 2 ^ 24 \<le> 1 / 16777216"
  proof -
    from eA have "1 - A \<le> 1" by linarith
    then have "(1 - A) / 16777216 \<le> 1 / 16777216"
      by (rule divide_right_mono) simp
    then show ?thesis by simp
  qed
  finally have "\<bar>f32 (1 - A) - (1 - A)\<bar> \<le> 1 / 16777216" .
  with eA have eB: "\<bar>B - 72 / 100\<bar> \<le> 1 / 8388608"
    unfolding B_def by linarith
  note T = f32_of_level [OF assms(1,2)]
  note C = f32_of_level [OF assms(3,4)]
  have "\<bar>A - 28 / 100\<bar> \<le> 1 / 8388608"
    using eA by linarith
  then have p: "\<bar>P - (28 / 100) * real_of_int target\<bar> \<le> 3 / 32768 \<and> 0 \<le> P \<and>
      P \<le> 257 \<and> (P = 0 \<or> 1 / 8 \<le> P)"
    unfolding P_def using T by (intro f32_product) auto
  have q: "\<bar>Q - (72 / 100) * real_of_int pwm\<bar> \<le> 3 / 32768 \<and> 0 \<le> Q \<and>
      Q \<le> 257 \<and> (Q = 0 \<or> 1 / 8 \<le> Q)"
    unfolding Q_def using eB C by (intro f32_product) auto
  from p q have "P + Q = 0 \<or> 1 / 8 \<le> P + Q"
    by linarith
  moreover have "P + Q \<le> 512"
  proof -
    have "real_of_int target \<le> 255" "real_of_int pwm \<le> 255"
      using assms(2,4) by simp_all
    with p q show ?thesis by linarith
  qed
  ultimately have "\<bar>f32 (P + Q) - (P + Q)\<bar> \<le> 1 / 32768"
    by (rule f32_close)
  with p q have
    "\<bar>f32 (P + Q) - ((28 / 100) * real_of_int target + (72 / 100) * real_of_int pwm)\<bar> < 1 / 50"
    by linarith
  then have "\<bar>f32 (P + Q) -
      (SMOOTH_ALPHA * real_of_int target + (1 - SMOOTH_ALPHA) * real_of_int pwm)\<bar> < 1 / 50"
    by (simp add: SMOOTH_ALPHA_def)
  with assms(1,3) have "c_round (f32 (P + Q)) = smooth SMOOTH_ALPHA target pwm"
    by (rule smooth_perturbed)
  moreover have "smooth_f32 SMOOTH_ALPHA target pwm = c_round (f32 (P + Q))"
    by (simp add: smooth_f32_def Let_def SMOOTH_ALPHA_def A_def B_def P_def Q_def)
  ultimately show ?thesis by simp
qed

lemma half_err:
  fixes x y e :: real
  shows "\<bar>y - 2 * x\<bar> \<le> e \<Longrightarrow> \<bar>y / 2 - x\<bar> \<le> e / 2"
  by linarith

lemma f32_norm_small:
  "0 \<le> x \<Longrightarrow> x * 2 ^ n < 2 ^ 23 \<Longrightarrow> \<bar>f32_norm n x - x\<bar> \<le> 1 / 2 ^ Suc n"
proof (induction n arbitrary: x)
  case 0
  with round_even_err [of x] show ?case by simp
next
  case (Suc n)
  have "(1::real) \<le> 2 ^ Suc n" by (rule one_le_power) simp
  then have "x * 1 \<le> x * 2 ^ Suc n"
    using Suc.prems(1) by (intro mult_left_mono) simp_all
  with Suc.prems(2) have small: "x < 2 ^ 23" by simp
  then have nbig: "\<not> 2 ^ 24 \<le> x" by simp
  have "(2 * x) * 2 ^ n < 2 ^ 23"
    using Suc.prems(2) by (simp add: mult.commute mult.left_commute)
  moreover have "0 \<le> 2 * x" using Suc.prems(1) by simp
  ultimately have "\<bar>f32_norm n (2 * x) - 2 * x\<bar> \<le> 1 / 2 ^ Suc n"
    by (intro Suc.IH)
  then have "\<bar>f32_norm n (2 * x) / 2 - x\<bar> \<le> (1 / 2 ^ Suc n) / 2"
    by (rule half_err)
  also have "(1 / 2 ^ Suc n) / 2 = 1 / (2::real) ^ Suc (Suc n)"
    by simp
  finally show ?case
    using small nbig by simp
qed

lemma f32_abs_err:
  assumes "\<bar>x\<bar> \<le> 512"
  shows "\<bar>f32 x - x\<bar> \<le> 1 / 32768"
proof -
  have pos: "\<bar>f32_norm 149 y - y\<bar> \<le> 1 / 32768" if "0 \<le> y" "y \<le> 512" for y :: real
  proof (cases "2 ^ 23 \<le> y * 2 ^ 149")
    case True
    moreover have "y \<le> 2 ^ 24 * 2 ^ 149"
      using that(2) by simp
    ultimately have "\<bar>f32_norm 149 y - y\<bar> \<le> y / 2 ^ 24"
      by (rule f32_norm_err)
    also have "y / 2 ^ 24 \<le> 512 / 2 ^ 24"
      using that(2) by (intro divide_right_mono) simp_all
    also have "512 / 2 ^ 24 = (1::real) / 32768"
      by simp
    finally show ?thesis .
  next
    case False
    then have "y * 2 ^ 149 < 2 ^ 23" by simp
    with that(1) have "\<bar>f32_norm 149 y - y\<bar> \<le> 1 / 2 ^ Suc 149"
      by (rule f32_norm_small)
    also have "1 / 2 ^ Suc 149 \<le> (1::real) / 32768"
      by simp
    finally show ?thesis .
  qed
  show ?thesis
  proof (cases "x < 0")
    case True
    with assms have "\<bar>f32_norm 149 (- x) - (- x)\<bar> \<le> 1 / 32768"
      by (intro pos) simp_all
    moreover from True have "f32 x = - f32_norm 149 (- x)"
      by (simp add: f32_def)
    ultimately show ?thesis by linarith
  next
    case False
    with assms have "\<bar>f32_norm 149 x - x\<bar> \<le> 1 / 32768"
      by (intro pos) simp_all
    with False show ?thesis by (simp add: f32_def)
  qed
qed

lemma c_round_near:
  assumes "real_of_int lo - 1 / 2 < x" and "x < real_of_int hi + 1 / 2"
  shows "lo \<le> c_round x \<and> c_round x \<le> hi"
proof (cases "0 \<le> x")
  case True
  have "real_of_int lo \<le> x + 1 / 2" "x + 1 / 2 < real_of_int (hi + 1)"
    using assms by simp_all
  then have "lo \<le> \<lfloor>x + 1 / 2\<rfloor>" "\<lfloor>x + 1 / 2\<rfloor> < hi + 1"
    by (simp_all only: le_floor_iff floor_less_iff)
  with True show ?thesis by (simp add: c_round_def)
next
  case False
  have "real_of_int (lo - 1) < x - 1 / 2" "x - 1 / 2 \<le> real_of_int hi"
    using assms by simp_all
  then have "lo - 1 < \<lceil>x - 1 / 2\<rceil>" "\<lceil>x - 1 / 2\<rceil> \<le> hi"
    by (simp_all only: less_ceiling_iff ceiling_le_iff)
  with False show ?thesis by (simp add: c_round_def)
qed

lemma smooth_f32_between:
  assumes al: "0 < alpha" "alpha < 1"
    and t: "0 \<le> target" "target \<le> 255" and c: "0 \<le> pwm" "pwm \<le> 255"
  shows "min pwm target \<le> smooth_f32 alpha target pwm \<and>
         smooth_f32 alpha target pwm \<le> max pwm target"
proof -
  define A where "A = f32 alpha"
  define T where "T = f32 (real_of_int target)"
  define C where "C = f32 (real_of_int pwm)"
  define B where "B = f32 (1 - A)"
  define P where "P = f32 (A * T)"
  define Q where "Q = f32 (B * C)"
  define X where "X = f32 (P + Q)"
  let ?e = "1 / 32768 :: real"
  have rt: "0 \<le> real_of_int target" "real_of_int target \<le> 255"
    and rc: "0 \<le> real_of_int pwm" "real_of_int pwm \<le> 255"
    using t c by simp_all
  have eA: "\<bar>A - alpha\<bar> \<le> ?e"
    unfolding A_def using al by (intro f32_abs_err) simp
  have eT: "\<bar>T - real_of_int target\<bar> \<le> ?e"
    unfolding T_def using rt by (intro f32_abs_err) simp
  have eC: "\<bar>C - real_of_int pwm\<bar> \<le> ?e"
    unfolding C_def using rc by (intro f32_abs_err) simp
  have "\<bar>1 - A\<bar> \<le> 512"
    using eA al by linarith
  then have "\<bar>B - (1 - A)\<bar> \<le> ?e"
    unfolding B_def by (rule f32_abs_err)
  with eA have eB: "\<bar>B - (1 - alpha)\<bar> \<le> 2 / 32768"
    by linarith
  have "\<bar>A * T - alpha * real_of_int target\<bar> \<le> ?e * 256 + 1 * ?e"
    using eA eT rt al by (intro mult_perturb) linarith+
  then have eAT: "\<bar>A * T - alpha * real_of_int target\<bar> \<le> 257 / 32768"
    by simp
  have at: "0 \<le> alpha * real_of_int target" "alpha * real_of_int target \<le> 1 * 255"
    using al rt by (simp, intro mult_mono) simp_all
  with eAT have "\<bar>A * T\<bar> \<le> 512"
    by linarith
  then have "\<bar>P - A * T\<bar> \<le> ?e"
    unfolding P_def by (rule f32_abs_err)
  with eAT have eP: "\<bar>P - alpha * real_of_int target\<bar> \<le> 258 / 32768"
    by linarith
  have "\<bar>B * C - (1 - alpha) * real_of_int pwm\<bar> \<le> (2 / 32768) * 256 + 1 * ?e"
    using eB eC rc al by (intro mult_perturb) linarith+
  then have eBC: "\<bar>B * C - (1 - alpha) * real_of_int pwm\<bar> \<le> 513 / 32768"
    by simp
  have bc: "0 \<le> (1 - alpha) * real_of_int pwm" "(1 - alpha) * real_of_int pwm \<le> 1 * 255"
    using al rc by (simp, intro mult_mono) simp_all
  with eBC have "\<bar>B * C\<bar> \<le> 512"
    by linarith
  then have "\<bar>Q - B * C\<bar> \<le> ?e"
    unfolding Q_def by (rule f32_abs_err)
  with eBC have eQ: "\<bar>Q - (1 - alpha) * real_of_int pwm\<bar> \<le> 514 / 32768"
    by linarith
  let ?x = "alpha * real_of_int target + (1 - alpha) * real_of_int pwm"
  have cv: "min (real_of_int target) (real_of_int pwm) \<le> ?x \<and>
        ?x \<le> max (real_of_int target) (real_of_int pwm)"
    using al by (intro convex_between) simp_all
  then have cvi: "real_of_int (min pwm target) \<le> ?x" "?x \<le> real_of_int (max pwm target)"
    by (simp_all add: min_def max_def split: if_splits)
  from eP eQ at bc have "\<bar>P + Q\<bar> \<le> 512"
    by linarith
  then have "\<bar>X - (P + Q)\<bar> \<le> ?e"
    unfolding X_def by (rule f32_abs_err)
  with eP eQ have "\<bar>X - ?x\<bar> \<le> 773 / 32768"
    by linarith
  with cvi have "real_of_int (min pwm target) - 1 / 2 < X" "X < real_of_int (max pwm target) + 1 / 2"
    by linarith+
  then have "min pwm target \<le> c_round X \<and> c_round X \<le> max pwm target"
    by (rule c_round_near)
  moreover have "smooth_f32 alpha target pwm = c_round X"
    by (simp add: smooth_f32_def Let_def A_def B_def C_def T_def P_def Q_def X_def)
  ultimately show ?thesis by simp
qed

lemma zero_step:
  assumes "processed c" and "channel_value c = 0"
  shows "deliver c s =
      (if ZERO_FRAMES_TO_OFF \<le> zeroFrameCount s + 1 then
         (if motorRunning s then
            s\<lparr> motorRunning := False, currentPwm := 0, lastDmxMillis := t_dmx c,
               motorLevel := 0, zeroFrameCount := 0,
               sink := DigitalWrite False # LedcWrite 0 # sink s \<rparr>
          else s\<lparr> lastDmxMillis := t_dmx c, zeroFrameCount := 0 \<rparr>)
       else s\<lparr> lastDmxMillis := t_dmx c, zeroFrameCount := zeroFrameCount s + 1 \<rparr>)"
  using assms
  by (simp add: processed_def channel_value_def deliver_def onDmxFrame_def Let_def
      setMotorOff_def writePwm_def constrain_def)

lemma nonzero_step:
  assumes "processed c" and "channel_value c \<noteq> 0"
  shows "deliver c s =
      (if motorRunning s then
         s\<lparr> lastDmxMillis := t_dmx c, motorLevel := channel_value c, zeroFrameCount := 0 \<rparr>
       else
         s\<lparr> motorRunning := True, lastDmxMillis := t_dmx c, lastSampleMillis := t_start c,
            motorLevel := channel_value c, noisePos := rnd c, zeroFrameCount := 0 \<rparr>)"
  using assms
  by (simp add: processed_def channel_value_def deliver_def onDmxFrame_def Let_def
      startMotor_def)

lemma dropped_step: "\<not> processed c \<Longrightarrow> deliver c s = s"
  by (auto simp: processed_def deliver_def onDmxFrame_def)

lemma watchdog_step:
  "watchdog now s =
     (if motorRunning s \<and> DMX_TIMEOUT_MS \<le> now - lastDmxMillis s then
        s\<lparr> motorRunning := False, currentPwm := 0, motorLevel := 0, zeroFrameCount := 0,
           sink := DigitalWrite False # LedcWrite 0 # sink s \<rparr>
      else s)"
  by (simp add: watchdog_def setMotorOff_def writePwm_def constrain_def Let_def)

lemma setup_state:
  "setup_motor boot =
     \<lparr> motorRunning = False, currentPwm = 0, lastDmxMillis = 0,
       lastSampleMillis = 0, motorLevel = 0, noisePos = 0,
       noiseStep = NOISE_STEP_DEFAULT, zeroFrameCount = 0,
       sink = [DigitalWrite False, LedcWrite 0, LedcWrite 0, DigitalWrite False] \<rparr>"
  by (simp add: setup_motor_def boot_def setMotorOff_def writePwm_def constrain_def Let_def)

lemma processed_frame_of [simp]: "processed (frame_of 0 512 v t)"
  by (simp add: processed_def frame_of_def ARTNET_UNIVERSE_def MOTOR_CHANNEL_def)

lemma channel_value_frame_of [simp]: "channel_value (frame_of u n v t) = v"
  by (simp add: channel_value_def frame_of_def)

lemma frame_of_sel [simp]:
  "t_dmx (frame_of u n v t) = t" "t_start (frame_of u n v t) = t" "rnd (frame_of u n v t) = 7"
  "universe (frame_of u n v t) = u" "len (frame_of u n v t) = n"
  by (simp_all add: frame_of_def)

lemma running_state_eq:
  "running_state =
     \<lparr> motorRunning = True, currentPwm = 0, lastDmxMillis = 1000,
       lastSampleMillis = 1000, motorLevel = 200, noisePos = 7,
       noiseStep = NOISE_STEP_DEFAULT, zeroFrameCount = 0,
       sink = [DigitalWrite False, LedcWrite 0, LedcWrite 0, DigitalWrite False] \<rparr>"
  by (simp add: running_state_def nonzero_step setup_state)

lemma next_duty_bounds:
  assumes "0 \<le> pwm" and "pwm \<le> DEFAULT_AMPLITUDE"
  shows "0 \<le> constrain (smooth SMOOTH_ALPHA (target_duty n (effectiveAmp level)) pwm) 0 255 \<and>
         constrain (smooth SMOOTH_ALPHA (target_duty n (effectiveAmp level)) pwm) 0 255
           \<le> DEFAULT_AMPLITUDE"
proof -
  let ?t = "target_duty n (effectiveAmp level)"
  have t: "0 \<le> ?t" "?t \<le> DEFAULT_AMPLITUDE"
    using target_duty_bounds [of n "effectiveAmp level"] effectiveAmp_le [of level] by linarith+
  have "min ?t pwm \<le> smooth SMOOTH_ALPHA ?t pwm \<and> smooth SMOOTH_ALPHA ?t pwm \<le> max ?t pwm"
    by (rule smooth_between) (simp_all add: SMOOTH_ALPHA_def)
  with t assms(1,2) have "0 \<le> smooth SMOOTH_ALPHA ?t pwm" "smooth SMOOTH_ALPHA ?t pwm \<le> DEFAULT_AMPLITUDE"
    by linarith+
  then show ?thesis
    by (simp add: constrain_def DEFAULT_AMPLITUDE_def)
qed

lemma constrain_range: "0 \<le> constrain v 0 255 \<and> constrain v 0 255 \<le> 255"
  by (simp add: constrain_def)

lemma inv_setup: "controller_inv (setup_motor boot)"
  by (simp add: controller_inv_def setup_state DEFAULT_AMPLITUDE_def ZERO_FRAMES_TO_OFF_def)

lemma inv_deliver:
  assumes "controller_inv s"
  shows "controller_inv (deliver c s)"
proof (cases "processed c")
  case False
  then show ?thesis using assms by (simp add: dropped_step)
next
  case True
  show ?thesis
  proof (cases "channel_value c = 0")
    case True
    with \<open>processed c\<close> assms show ?thesis
      by (auto simp: zero_step controller_inv_def DEFAULT_AMPLITUDE_def ZERO_FRAMES_TO_OFF_def)
  next
    case False
    with \<open>processed c\<close> assms show ?thesis
      by (auto simp: nonzero_step controller_inv_def DEFAULT_AMPLITUDE_def ZERO_FRAMES_TO_OFF_def)
  qed
qed

lemma inv_watchdog:
  assumes "controller_inv s"
  shows "controller_inv (watchdog now s)"
  using assms
  by (auto simp: watchdog_step controller_inv_def DEFAULT_AMPLITUDE_def ZERO_FRAMES_TO_OFF_def)

lemma inv_sampler:
  assumes "controller_inv s"
  shows "controller_inv (sampler inoise8 now s)"
proof (cases "sample_due now s")
  case False
  then show ?thesis using assms by (simp add: sampler_idle)
next
  case True
  then have run: "motorRunning s" by (simp add: sample_due_def)
  from assms have p: "0 \<le> currentPwm s" "currentPwm s \<le> DEFAULT_AMPLITUDE"
    by (simp_all add: controller_inv_def)
  note b = next_duty_bounds [OF p, of "inoise8 (noisePos s + noiseStep s)" "motorLevel s"]
  show ?thesis
    using assms run b
    by (simp add: sampler_due [OF True] controller_inv_def Let_def)
qed

lemma reachable_inv: "reachable inoise8 s \<Longrightarrow> controller_inv s"
  by (induction rule: reachable.induct)
     (simp_all add: inv_setup inv_deliver inv_watchdog inv_sampler)

lemma reachable_loop_iter:
  "reachable inoise8 s \<Longrightarrow> reachable inoise8 (loop_iter inoise8 pkt now s)"
  by (cases pkt) (simp_all add: loop_iter_def reach_frame reach_watchdog reach_sampler)

lemma ranges_deliver: "ranges_ok s \<Longrightarrow> ranges_ok (deliver c s)"
proof (cases "processed c")
  case False
  assume "ranges_ok s"
  with False show ?thesis by (simp add: dropped_step)
next
  case True
  assume r: "ranges_ok s"
  show ?thesis
  proof (cases "channel_value c = 0")
    case True
    with \<open>processed c\<close> r show ?thesis
      by (auto simp: zero_step ranges_ok_def uint8_le_255)
  next
    case False
    with \<open>processed c\<close> r show ?thesis
      by (auto simp: nonzero_step ranges_ok_def uint8_le_255)
  qed
qed

lemma ranges_watchdog: "ranges_ok s \<Longrightarrow> ranges_ok (watchdog now s)"
  by (auto simp: watchdog_step ranges_ok_def)

lemma ranges_sampler: "ranges_ok s \<Longrightarrow> ranges_ok (sampler inoise8 now s)"
  by (cases "sample_due now s")
     (simp_all add: sampler_idle sampler_due ranges_ok_def Let_def constrain_range)

lemma zfc_below_succ:
  fixes z :: "8 word"
  assumes "z < ZERO_FRAMES_TO_OFF"
  shows "z + 1 \<le> ZERO_FRAMES_TO_OFF \<and> z < z + 1 \<and> z + 1 \<noteq> 0"
proof -
  from assms have "unat z < 5"
    by (simp add: ZERO_FRAMES_TO_OFF_def word_less_nat_alt)
  then have "unat (z + 1) = unat z + 1"
    by (simp add: unat_word_ariths)
  with \<open>unat z < 5\<close> show ?thesis
    by (simp add: ZERO_FRAMES_TO_OFF_def word_le_nat_alt word_less_nat_alt unat_eq_0 [symmetric]
        del: unat_eq_0)
qed

section \<open>The claims\<close>

text \<open>
  Claim C1. A processed frame whose channel value is 0 increments \<open>zeroFrameCount\<close>.
  While the incremented count is below \<open>ZERO_FRAMES_TO_OFF\<close> nothing else changes
  (apart from the frame time). When it reaches the threshold, the controller stops if
  and only if it was running (duty 0 is written, \<open>motorLevel\<close> is 0, \<open>motorRunning\<close>
  is false) and the count is reset to 0 in both cases. Hence, from a running state with
  count 0, a run of exactly \<open>ZERO_FRAMES_TO_OFF\<close> zero frames keeps the motor running
  through every proper prefix and stops it once, at the last frame: the sink receives
  exactly one stop write. A nonzero frame resets the count.
\<close>

theorem zero_frames_debounce_stop:
  "(processed c \<and> channel_value c = 0 \<longrightarrow>
      (zeroFrameCount s + 1 < ZERO_FRAMES_TO_OFF \<longrightarrow>
         deliver c s = s\<lparr> lastDmxMillis := t_dmx c, zeroFrameCount := zeroFrameCount s + 1 \<rparr>) \<and>
      (ZERO_FRAMES_TO_OFF \<le> zeroFrameCount s + 1 \<and> motorRunning s \<longrightarrow>
         deliver c s = s\<lparr> motorRunning := False, currentPwm := 0, lastDmxMillis := t_dmx c,
                          motorLevel := 0, zeroFrameCount := 0,
                          sink := DigitalWrite False # LedcWrite 0 # sink s \<rparr>) \<and>
      (ZERO_FRAMES_TO_OFF \<le> zeroFrameCount s + 1 \<and> \<not> motorRunning s \<longrightarrow>
         deliver c s = s\<lparr> lastDmxMillis := t_dmx c, zeroFrameCount := 0 \<rparr>)) \<and>
   (length cs = unat ZERO_FRAMES_TO_OFF \<and> (\<forall>c \<in> set cs. processed c \<and> channel_value c = 0) \<and>
    motorRunning s \<and> zeroFrameCount s = 0 \<longrightarrow>
      (\<forall>k < length cs.
         motorRunning (deliver_all (take k cs) s) \<and>
         zeroFrameCount (deliver_all (take k cs) s) = of_nat k \<and>
         motorLevel (deliver_all (take k cs) s) = motorLevel s \<and>
         currentPwm (deliver_all (take k cs) s) = currentPwm s \<and>
         sink (deliver_all (take k cs) s) = sink s) \<and>
      deliver_all cs s =
        s\<lparr> motorRunning := False, currentPwm := 0, lastDmxMillis := t_dmx (last cs),
           motorLevel := 0, zeroFrameCount := 0,
           sink := DigitalWrite False # LedcWrite 0 # sink s \<rparr>) \<and>
   (processed c' \<and> channel_value c' \<noteq> 0 \<longrightarrow> zeroFrameCount (deliver c' s) = 0)"
proof (intro conjI impI)
  assume "processed c \<and> channel_value c = 0"
  then have step: "processed c" "channel_value c = 0" by simp_all
  {
    assume "zeroFrameCount s + 1 < ZERO_FRAMES_TO_OFF"
    then show "deliver c s = s\<lparr> lastDmxMillis := t_dmx c, zeroFrameCount := zeroFrameCount s + 1 \<rparr>"
      by (simp add: zero_step [OF step] not_le [symmetric])
  next
    assume "ZERO_FRAMES_TO_OFF \<le> zeroFrameCount s + 1 \<and> motorRunning s"
    then show "deliver c s = s\<lparr> motorRunning := False, currentPwm := 0, lastDmxMillis := t_dmx c,
                          motorLevel := 0, zeroFrameCount := 0,
                          sink := DigitalWrite False # LedcWrite 0 # sink s \<rparr>"
      by (simp add: zero_step [OF step])
  next
    assume "ZERO_FRAMES_TO_OFF \<le> zeroFrameCount s + 1 \<and> \<not> motorRunning s"
    then show "deliver c s = s\<lparr> lastDmxMillis := t_dmx c, zeroFrameCount := 0 \<rparr>"
      by (simp add: zero_step [OF step])
  }
next
  assume "processed c' \<and> channel_value c' \<noteq> 0"
  then show "zeroFrameCount (deliver c' s) = 0"
    by (simp add: nonzero_step)
next
  assume a: "length cs = unat ZERO_FRAMES_TO_OFF \<and> (\<forall>c \<in> set cs. processed c \<and> channel_value c = 0) \<and>
    motorRunning s \<and> zeroFrameCount s = 0"
  then have "length cs = 5" by (simp add: ZERO_FRAMES_TO_OFF_def)
  then obtain c1 c2 c3 c4 c5 where cs: "cs = [c1, c2, c3, c4, c5]"
    by (auto simp: numeral_eq_Suc length_Suc_conv)
  from a cs have z: "processed c1" "channel_value c1 = 0" "processed c2" "channel_value c2 = 0"
    "processed c3" "channel_value c3 = 0" "processed c4" "channel_value c4 = 0"
    "processed c5" "channel_value c5 = 0"
    by simp_all
  from a have s: "motorRunning s" "zeroFrameCount s = 0" by simp_all
  define s1 where "s1 = s\<lparr> lastDmxMillis := t_dmx c1, zeroFrameCount := 1 \<rparr>"
  define s2 where "s2 = s\<lparr> lastDmxMillis := t_dmx c2, zeroFrameCount := 2 \<rparr>"
  define s3 where "s3 = s\<lparr> lastDmxMillis := t_dmx c3, zeroFrameCount := 3 \<rparr>"
  define s4 where "s4 = s\<lparr> lastDmxMillis := t_dmx c4, zeroFrameCount := 4 \<rparr>"
  note below = ZERO_FRAMES_TO_OFF_def word_le_nat_alt
  have d1: "deliver c1 s = s1"
    using s by (simp add: s1_def zero_step z below)
  have d2: "deliver c2 s1 = s2"
    using s by (simp add: s1_def s2_def zero_step z below)
  have d3: "deliver c3 s2 = s3"
    using s by (simp add: s2_def s3_def zero_step z below)
  have d4: "deliver c4 s3 = s4"
    using s by (simp add: s3_def s4_def zero_step z below)
  have d5: "deliver c5 s4 =
      s\<lparr> motorRunning := False, currentPwm := 0, lastDmxMillis := t_dmx c5,
         motorLevel := 0, zeroFrameCount := 0,
         sink := DigitalWrite False # LedcWrite 0 # sink s \<rparr>"
    using s by (simp add: s4_def zero_step z below)
  show "deliver_all cs s =
        s\<lparr> motorRunning := False, currentPwm := 0, lastDmxMillis := t_dmx (last cs),
           motorLevel := 0, zeroFrameCount := 0,
           sink := DigitalWrite False # LedcWrite 0 # sink s \<rparr>"
    by (simp add: cs d1 d2 d3 d4 d5)
  show "\<forall>k < length cs.
         motorRunning (deliver_all (take k cs) s) \<and>
         zeroFrameCount (deliver_all (take k cs) s) = of_nat k \<and>
         motorLevel (deliver_all (take k cs) s) = motorLevel s \<and>
         currentPwm (deliver_all (take k cs) s) = currentPwm s \<and>
         sink (deliver_all (take k cs) s) = sink s"
  proof (intro allI impI)
    fix k assume "k < length cs"
    then have "k = 0 \<or> k = 1 \<or> k = 2 \<or> k = 3 \<or> k = 4"
      unfolding cs by auto
    moreover have "deliver_all (take 0 cs) s = s" "deliver_all (take 1 cs) s = s1"
      "deliver_all (take 2 cs) s = s2" "deliver_all (take 3 cs) s = s3"
      "deliver_all (take 4 cs) s = s4"
      by (simp_all add: cs d1 d2 d3 d4)
    ultimately show "motorRunning (deliver_all (take k cs) s) \<and>
         zeroFrameCount (deliver_all (take k cs) s) = of_nat k \<and>
         motorLevel (deliver_all (take k cs) s) = motorLevel s \<and>
         currentPwm (deliver_all (take k cs) s) = currentPwm s \<and>
         sink (deliver_all (take k cs) s) = sink s"
      using s by (elim disjE) (simp_all add: s1_def s2_def s3_def s4_def)
  qed
qed

theorem zero_frames_debounce_stop_witness:
  "deliver (frame_of 0 512 0 2000) running_state
     = running_state\<lparr> lastDmxMillis := 2000, zeroFrameCount := 1 \<rparr> \<and>
   deliver (frame_of 0 512 0 2000) (running_state\<lparr> zeroFrameCount := 4 \<rparr>)
     = running_state\<lparr> motorRunning := False, currentPwm := 0, lastDmxMillis := 2000,
         motorLevel := 0, zeroFrameCount := 0,
         sink := DigitalWrite False # LedcWrite 0 # sink running_state \<rparr> \<and>
   deliver (frame_of 0 512 0 2000) ((setup_motor boot)\<lparr> zeroFrameCount := 4 \<rparr>)
     = (setup_motor boot)\<lparr> lastDmxMillis := 2000, zeroFrameCount := 0 \<rparr> \<and>
   motorRunning (deliver_all (take 4 (replicate 5 (frame_of 0 512 0 2000))) running_state) \<and>
   \<not> motorRunning (deliver_all (replicate 5 (frame_of 0 512 0 2000)) running_state) \<and>
   duties (sink (deliver_all (replicate 5 (frame_of 0 512 0 2000)) running_state))
     = 0 # duties (sink running_state) \<and>
   zeroFrameCount (deliver (frame_of 0 512 9 3000) (running_state\<lparr> zeroFrameCount := 3 \<rparr>)) = 0"
  using zero_frames_debounce_stop [of "frame_of 0 512 0 2000" running_state "replicate 5 (frame_of 0 512 0 2000)"
               "frame_of 0 512 9 3000"]
        zero_frames_debounce_stop [of "frame_of 0 512 0 2000" "running_state\<lparr> zeroFrameCount := 4 \<rparr>" "[]"
               "frame_of 0 512 9 3000"]
        zero_frames_debounce_stop [of "frame_of 0 512 0 2000" "(setup_motor boot)\<lparr> zeroFrameCount := 4 \<rparr>" "[]"
               "frame_of 0 512 9 3000"]
        zero_frames_debounce_stop [of "frame_of 0 512 0 2000" "running_state\<lparr> zeroFrameCount := 3 \<rparr>" "[]"
               "frame_of 0 512 9 3000"]
  by (simp add: running_state_eq setup_state ZERO_FRAMES_TO_OFF_def word_le_nat_alt word_less_nat_alt)

text \<open>
  Claim C2. If the controller is running and \<open>now - lastDmxMillis\<close> has reached
  \<open>DMX_TIMEOUT_MS\<close>, the watchdog stops the motor by the same \<open>setMotorOff\<close> as the
  debounce path (duty 0, level 0, not running) and resets \<open>zeroFrameCount\<close>, whatever
  the count was; the sampler of the same iteration then does nothing. The state differs
  from the one the debounce path leaves only in the frame time.
\<close>

theorem watchdog_forces_stop:
  assumes "motorRunning s" and "DMX_TIMEOUT_MS \<le> now - lastDmxMillis s"
  shows "watchdog now s =
           s\<lparr> motorRunning := False, currentPwm := 0, motorLevel := 0, zeroFrameCount := 0,
              sink := DigitalWrite False # LedcWrite 0 # sink s \<rparr> \<and>
         watchdog now s = (setMotorOff s)\<lparr> zeroFrameCount := 0 \<rparr> \<and>
         loop_iter inoise8 None now s = watchdog now s \<and>
         (processed c \<and> channel_value c = 0 \<and> ZERO_FRAMES_TO_OFF \<le> zeroFrameCount s + 1 \<longrightarrow>
            deliver c s = (watchdog now s)\<lparr> lastDmxMillis := t_dmx c \<rparr>)"
proof -
  have w: "watchdog now s =
           s\<lparr> motorRunning := False, currentPwm := 0, motorLevel := 0, zeroFrameCount := 0,
              sink := DigitalWrite False # LedcWrite 0 # sink s \<rparr>"
    using assms by (simp add: watchdog_step)
  have "\<not> sample_due now (watchdog now s)"
    by (simp add: w sample_due_def)
  then have l: "loop_iter inoise8 None now s = watchdog now s"
    by (simp add: loop_iter_def sampler_idle)
  have o: "watchdog now s = (setMotorOff s)\<lparr> zeroFrameCount := 0 \<rparr>"
    using assms by (simp add: watchdog_def)
  have "deliver c s = (watchdog now s)\<lparr> lastDmxMillis := t_dmx c \<rparr>"
    if "processed c \<and> channel_value c = 0 \<and> ZERO_FRAMES_TO_OFF \<le> zeroFrameCount s + 1"
    using that assms(1) by (simp add: zero_step w)
  with w l o show ?thesis by blast
qed

theorem watchdog_forces_stop_witness:
  "motorRunning (running_state\<lparr> zeroFrameCount := 4 \<rparr>) \<and>
   watchdog 31000 (running_state\<lparr> zeroFrameCount := 4 \<rparr>) =
     running_state\<lparr> motorRunning := False, currentPwm := 0, motorLevel := 0, zeroFrameCount := 0,
        sink := DigitalWrite False # LedcWrite 0 # sink running_state \<rparr> \<and>
   loop_iter (\<lambda>p. 128) None 31000 (running_state\<lparr> zeroFrameCount := 4 \<rparr>) =
     watchdog 31000 (running_state\<lparr> zeroFrameCount := 4 \<rparr>) \<and>
   deliver (frame_of 0 512 0 2000) (running_state\<lparr> zeroFrameCount := 4 \<rparr>) =
     (watchdog 31000 (running_state\<lparr> zeroFrameCount := 4 \<rparr>))\<lparr> lastDmxMillis := 2000 \<rparr>"
  using watchdog_forces_stop [of "running_state\<lparr> zeroFrameCount := 4 \<rparr>" 31000 "\<lambda>p. 128"
          "frame_of 0 512 0 2000"]
  by (simp add: running_state_eq DMX_TIMEOUT_MS_def ZERO_FRAMES_TO_OFF_def word_le_nat_alt)

text \<open>
  A nonzero frame that arrives while the motor runs also sets \<open>lastDmxMillis\<close>
  (line 114 runs for every processed frame), so the state after it is not the old state
  with only the count and the level changed.
\<close>

theorem nonzero_frame_running_counterexample:
  "motorRunning running_state \<and> processed (frame_of 0 512 9 3000) \<and>
   channel_value (frame_of 0 512 9 3000) = 9 \<and>
   deliver (frame_of 0 512 9 3000) running_state
     \<noteq> running_state\<lparr> motorLevel := 9, zeroFrameCount := 0 \<rparr> \<and>
   lastDmxMillis running_state = 1000 \<and>
   lastDmxMillis (deliver (frame_of 0 512 9 3000) running_state) = 3000"
  by (simp add: nonzero_step running_state_eq)

text \<open>
  Claim C3, amended. A processed frame with a nonzero channel value \<open>v\<close> resets
  \<open>zeroFrameCount\<close>, sets \<open>motorLevel\<close> to \<open>v\<close> and sets \<open>lastDmxMillis\<close> to the
  frame time. If the motor was stopped, it also sets \<open>motorRunning\<close>, reseeds
  \<open>noisePos\<close> with the value read from \<open>random()\<close>, and sets \<open>lastSampleMillis\<close> to the
  clock value read in \<open>startMotor\<close>. If the motor was running, the frame time, the level
  and the count are the only fields that change.
\<close>

theorem nonzero_frame_effect:
  assumes "processed c" and "channel_value c \<noteq> 0"
  shows "zeroFrameCount (deliver c s) = 0 \<and> motorLevel (deliver c s) = channel_value c \<and>
         lastDmxMillis (deliver c s) = t_dmx c \<and>
         (\<not> motorRunning s \<longrightarrow>
            deliver c s =
              s\<lparr> motorRunning := True, lastDmxMillis := t_dmx c, lastSampleMillis := t_start c,
                 motorLevel := channel_value c, noisePos := rnd c, zeroFrameCount := 0 \<rparr>) \<and>
         (motorRunning s \<longrightarrow>
            deliver c s =
              s\<lparr> lastDmxMillis := t_dmx c, motorLevel := channel_value c, zeroFrameCount := 0 \<rparr>)"
  using assms by (simp add: nonzero_step)

theorem nonzero_frame_effect_witness:
  "deliver (frame_of 0 512 9 3000) (setup_motor boot) =
     (setup_motor boot)\<lparr> motorRunning := True, lastDmxMillis := 3000, lastSampleMillis := 3000,
        motorLevel := 9, noisePos := 7, zeroFrameCount := 0 \<rparr> \<and>
   deliver (frame_of 0 512 9 3000) (running_state\<lparr> zeroFrameCount := 2 \<rparr>) =
     running_state\<lparr> lastDmxMillis := 3000, motorLevel := 9, zeroFrameCount := 0 \<rparr>"
  using nonzero_frame_effect [of "frame_of 0 512 9 3000" "setup_motor boot"]
        nonzero_frame_effect [of "frame_of 0 512 9 3000" "running_state\<lparr> zeroFrameCount := 2 \<rparr>"]
  by (simp add: running_state_eq setup_state)

text \<open>
  The sketch computes both quotients in integer arithmetic, which truncates. At level
  255 and noise value 2 the amplitude is 230 in both readings, the sketch's target is
  \<open>460 / 255 = 1\<close>, and the rounded quotient of the specification is 2. At level 2
  the sketch's amplitude is 1, the rounded one 2.
\<close>

theorem target_rounding_counterexample:
  "target_duty 2 (effectiveAmp 255) = 1 \<and>
   spec_target 2 (spec_effectiveAmplitude 255 DEFAULT_AMPLITUDE) = 2 \<and>
   uint (effectiveAmp 2) = 1 \<and> spec_effectiveAmplitude 2 DEFAULT_AMPLITUDE = 2"
  by (simp add: target_duty_def effectiveAmp_def map_long_def DEFAULT_AMPLITUDE_def
      spec_target_def spec_effectiveAmplitude_def round_def)

text \<open>
  Claim C4, amended. On every sample tick while running, the amplitude is
  \<open>level * DEFAULT_AMPLITUDE / 255\<close> rounded down, the target is
  \<open>n * amplitude / 255\<close> rounded down, where \<open>n\<close> is the noise value at the advanced
  position, and the duty the tick writes is the smoothing step towards that target.
  The two quotients are rounded down for every level and every noise value; level 128
  with amplitude ceiling 230 gives amplitude 115.
\<close>

theorem sample_tick_target:
  "(sample_due now s \<and> n = inoise8 (noisePos s + noiseStep s) \<and>
    amp = \<lfloor>real_of_int (uint (motorLevel s)) * real_of_int DEFAULT_AMPLITUDE / 255\<rfloor> \<and>
    target = \<lfloor>real_of_int (uint n) * real_of_int amp / 255\<rfloor> \<longrightarrow>
      uint (effectiveAmp (motorLevel s)) = amp \<and>
      target_duty n (effectiveAmp (motorLevel s)) = target \<and>
      sampler inoise8 now s =
        s\<lparr> currentPwm := constrain (smooth SMOOTH_ALPHA target (currentPwm s)) 0 255,
           lastSampleMillis := now, noisePos := noisePos s + noiseStep s,
           sink := LedcWrite (constrain (smooth SMOOTH_ALPHA target (currentPwm s)) 0 255)
                     # DigitalWrite False # sink s \<rparr>) \<and>
   uint (effectiveAmp level) = \<lfloor>real_of_int (uint level) * real_of_int DEFAULT_AMPLITUDE / 255\<rfloor> \<and>
   target_duty n' amp' = \<lfloor>real_of_int (uint n') * real_of_int (uint amp') / 255\<rfloor> \<and>
   effectiveAmp 128 = 115 \<and> DEFAULT_AMPLITUDE = 230"
proof -
  have 1: "uint (effectiveAmp l) = \<lfloor>real_of_int (uint l) * real_of_int DEFAULT_AMPLITUDE / 255\<rfloor>"
    for l :: "8 word"
  proof -
    have "\<lfloor>real_of_int (uint l * 230) / real_of_int 255\<rfloor> = uint l * 230 div 255"
      by (rule floor_divide_of_int_eq)
    then show ?thesis
      by (simp add: uint_effectiveAmp DEFAULT_AMPLITUDE_def)
  qed
  have 2: "target_duty k a = \<lfloor>real_of_int (uint k) * real_of_int (uint a) / 255\<rfloor>"
    for k a :: "8 word"
  proof -
    have "\<lfloor>real_of_int (uint k * uint a) / real_of_int 255\<rfloor> = uint k * uint a div 255"
      by (rule floor_divide_of_int_eq)
    then show ?thesis
      by (simp add: target_duty_div)
  qed
  have 3: "effectiveAmp 128 = 115"
    by (simp add: effectiveAmp_def map_long_def DEFAULT_AMPLITUDE_def)
  have 4: "uint (effectiveAmp (motorLevel s)) = amp \<and>
      target_duty n (effectiveAmp (motorLevel s)) = target \<and>
      sampler inoise8 now s =
        s\<lparr> currentPwm := constrain (smooth SMOOTH_ALPHA target (currentPwm s)) 0 255,
           lastSampleMillis := now, noisePos := noisePos s + noiseStep s,
           sink := LedcWrite (constrain (smooth SMOOTH_ALPHA target (currentPwm s)) 0 255)
                     # DigitalWrite False # sink s \<rparr>"
    if a: "sample_due now s \<and> n = inoise8 (noisePos s + noiseStep s) \<and>
      amp = \<lfloor>real_of_int (uint (motorLevel s)) * real_of_int DEFAULT_AMPLITUDE / 255\<rfloor> \<and>
      target = \<lfloor>real_of_int (uint n) * real_of_int amp / 255\<rfloor>"
  proof -
    from a have due: "sample_due now s" and n: "n = inoise8 (noisePos s + noiseStep s)" by simp_all
    from a have am: "uint (effectiveAmp (motorLevel s)) = amp"
      by (simp only: 1)
    from a have tg: "target_duty n (effectiveAmp (motorLevel s)) = target"
      by (simp only: 2 am)
    have "sampler inoise8 now s =
        s\<lparr> currentPwm := constrain (smooth SMOOTH_ALPHA target (currentPwm s)) 0 255,
           lastSampleMillis := now, noisePos := noisePos s + noiseStep s,
           sink := LedcWrite (constrain (smooth SMOOTH_ALPHA target (currentPwm s)) 0 255)
                     # DigitalWrite False # sink s \<rparr>"
      using tg by (simp add: sampler_due [OF due] Let_def n)
    with am tg show ?thesis by simp
  qed
  from 1 [of level] 2 [of n' amp'] 3 4 show ?thesis
    by (simp add: DEFAULT_AMPLITUDE_def)
qed

theorem sample_tick_target_witness:
  "sample_due 1025 running_state \<and> motorLevel running_state = 200 \<and>
   uint (effectiveAmp 200) = 180 \<and> target_duty 255 (effectiveAmp 200) = 180 \<and>
   sampler (\<lambda>p. 255) 1025 running_state =
     running_state\<lparr> currentPwm := 50, lastSampleMillis := 1025,
        noisePos := noisePos running_state + noiseStep running_state,
        sink := LedcWrite 50 # DigitalWrite False # sink running_state \<rparr> \<and>
   uint (effectiveAmp 128) = 115 \<and> target_duty 200 115 = 90"
proof -
  have d: "sample_due 1025 running_state"
    by (simp add: sample_due_def running_state_eq SAMPLE_INTERVAL_MS_def SAMPLE_HZ_def
        word_le_nat_alt)
  have l: "motorLevel running_state = 200" "currentPwm running_state = 0"
    by (simp_all add: running_state_eq)
  have f: "\<lfloor>real_of_int (uint (200 :: 8 word)) * real_of_int DEFAULT_AMPLITUDE / 255\<rfloor> = 180"
    "\<lfloor>real_of_int (uint (255 :: 8 word)) * real_of_int 180 / 255\<rfloor> = 180"
    by (simp_all add: DEFAULT_AMPLITUDE_def)
  have c: "constrain (smooth SMOOTH_ALPHA 180 0) 0 255 = 50"
    by (simp add: smooth_def SMOOTH_ALPHA_def c_round_def constrain_def)
  from sample_tick_target [of 1025 running_state 255 "\<lambda>p. 255" 180 180 128 200 115] d l f c
  show ?thesis by (simp add: DEFAULT_AMPLITUDE_def)
qed

text \<open>
  With another factor the single-precision step is not always the rounded exact value:
  at factor 0.35, previous duty 90 and target 0 the expression of the sketch gives 58,
  and the rounded exact value is 59, for the decimal 0.35 and for the binary32 value
  nearest to it.
\<close>

theorem smoothing_other_alpha_counterexample:
  "(0::real) < 35 / 100 \<and> (35 / 100 :: real) < 1 \<and>
   smooth_f32 (35 / 100) 0 90 = 58 \<and>
   round ((35 / 100) * real_of_int 0 + (1 - 35 / 100) * real_of_int 90) = 59 \<and>
   round (f32 (35 / 100) * real_of_int 0 + (1 - f32 (35 / 100)) * real_of_int 90) = 59"
  by (simp add: smooth_f32_def f32_def f32_norm_numeral f32_norm_zero round_even_def
      c_round_def round_def Let_def)

text \<open>
  Claim C5, amended. On a sample tick with a previous duty in \<open>[0,255]\<close> the new duty,
  the one written to the sink, is the single-precision smoothing step at the sketch's
  factor \<open>SMOOTH_ALPHA = 0.28\<close>; it equals
  \<open>round(SMOOTH_ALPHA * target + (1 - SMOOTH_ALPHA) * currentPwm)\<close> and lies between the
  previous duty and the target. For every factor strictly between 0 and 1, every previous
  duty and every target in \<open>[0,255]\<close>, the single-precision step lies between the
  previous duty and the target; at the sketch's factor it equals the rounded exact value
  for all of them, and duty 100 with target 200 gives 128.
\<close>

theorem sample_tick_smoothing:
  "(sample_due now s \<and> 0 \<le> currentPwm s \<and> currentPwm s \<le> 255 \<and>
    target = target_duty (inoise8 (noisePos s + noiseStep s)) (effectiveAmp (motorLevel s)) \<longrightarrow>
      currentPwm (sampler inoise8 now s) = smooth_f32 SMOOTH_ALPHA target (currentPwm s) \<and>
      currentPwm (sampler inoise8 now s) =
        round (SMOOTH_ALPHA * real_of_int target + (1 - SMOOTH_ALPHA) * real_of_int (currentPwm s)) \<and>
      last_duty (sink (sampler inoise8 now s)) = Some (currentPwm (sampler inoise8 now s)) \<and>
      min (currentPwm s) target \<le> currentPwm (sampler inoise8 now s) \<and>
      currentPwm (sampler inoise8 now s) \<le> max (currentPwm s) target) \<and>
   (0 < alpha \<and> alpha < 1 \<and> 0 \<le> pwm \<and> pwm \<le> 255 \<and> 0 \<le> t \<and> t \<le> 255 \<longrightarrow>
      min pwm t \<le> smooth_f32 alpha t pwm \<and> smooth_f32 alpha t pwm \<le> max pwm t \<and>
      smooth_f32 SMOOTH_ALPHA t pwm =
        round (SMOOTH_ALPHA * real_of_int t + (1 - SMOOTH_ALPHA) * real_of_int pwm)) \<and>
   SMOOTH_ALPHA = 28 / 100 \<and> smooth_f32 SMOOTH_ALPHA 200 100 = 128"
proof (intro conjI impI)
  assume a: "sample_due now s \<and> 0 \<le> currentPwm s \<and> currentPwm s \<le> 255 \<and>
    target = target_duty (inoise8 (noisePos s + noiseStep s)) (effectiveAmp (motorLevel s))"
  then have due: "sample_due now s" and p: "0 \<le> currentPwm s" "currentPwm s \<le> 255"
    and tg: "target = target_duty (inoise8 (noisePos s + noiseStep s)) (effectiveAmp (motorLevel s))"
    by simp_all
  have t: "0 \<le> target" "target \<le> 255"
    using target_duty_bounds [of "inoise8 (noisePos s + noiseStep s)" "effectiveAmp (motorLevel s)"]
      effectiveAmp_le [of "motorLevel s"]
    by (simp_all add: tg DEFAULT_AMPLITUDE_def)
  have b: "min target (currentPwm s) \<le> smooth SMOOTH_ALPHA target (currentPwm s) \<and>
      smooth SMOOTH_ALPHA target (currentPwm s) \<le> max target (currentPwm s)"
    by (rule smooth_between) (simp_all add: SMOOTH_ALPHA_def)
  with t p have r: "0 \<le> smooth SMOOTH_ALPHA target (currentPwm s)"
      "smooth SMOOTH_ALPHA target (currentPwm s) \<le> 255"
    by linarith+
  have d: "currentPwm (sampler inoise8 now s) = smooth SMOOTH_ALPHA target (currentPwm s)"
    using r by (simp add: sampler_due [OF due] Let_def tg constrain_def)
  show "currentPwm (sampler inoise8 now s) = smooth_f32 SMOOTH_ALPHA target (currentPwm s)"
    using t p by (simp add: d smooth_f32_shipped)
  have "0 \<le> SMOOTH_ALPHA * real_of_int target + (1 - SMOOTH_ALPHA) * real_of_int (currentPwm s)"
    using t p by (simp add: SMOOTH_ALPHA_def)
  then show "currentPwm (sampler inoise8 now s) =
        round (SMOOTH_ALPHA * real_of_int target + (1 - SMOOTH_ALPHA) * real_of_int (currentPwm s))"
    by (simp add: d smooth_def c_round_eq_round)
  show "last_duty (sink (sampler inoise8 now s)) = Some (currentPwm (sampler inoise8 now s))"
    by (simp add: sampler_due [OF due] Let_def)
  from b show "min (currentPwm s) target \<le> currentPwm (sampler inoise8 now s)"
    by (simp add: d min.commute)
  from b show "currentPwm (sampler inoise8 now s) \<le> max (currentPwm s) target"
    by (simp add: d max.commute)
next
  assume g: "0 < alpha \<and> alpha < 1 \<and> 0 \<le> pwm \<and> pwm \<le> 255 \<and> 0 \<le> t \<and> t \<le> 255"
  then have "min pwm t \<le> smooth_f32 alpha t pwm \<and> smooth_f32 alpha t pwm \<le> max pwm t"
    by (intro smooth_f32_between) simp_all
  then show "min pwm t \<le> smooth_f32 alpha t pwm" "smooth_f32 alpha t pwm \<le> max pwm t"
    by simp_all
  from g have "0 \<le> SMOOTH_ALPHA * real_of_int t + (1 - SMOOTH_ALPHA) * real_of_int pwm"
    by (simp add: SMOOTH_ALPHA_def)
  then have "smooth SMOOTH_ALPHA t pwm =
      round (SMOOTH_ALPHA * real_of_int t + (1 - SMOOTH_ALPHA) * real_of_int pwm)"
    unfolding smooth_def by (rule c_round_eq_round)
  with g show "smooth_f32 SMOOTH_ALPHA t pwm =
      round (SMOOTH_ALPHA * real_of_int t + (1 - SMOOTH_ALPHA) * real_of_int pwm)"
    by (simp add: smooth_f32_shipped)
next
  show "SMOOTH_ALPHA = 28 / 100"
    by (simp add: SMOOTH_ALPHA_def)
  have "smooth SMOOTH_ALPHA 200 100 = 128"
    by (simp add: smooth_def SMOOTH_ALPHA_def c_round_def)
  then show "smooth_f32 SMOOTH_ALPHA 200 100 = 128"
    by (simp add: smooth_f32_shipped)
qed

theorem sample_tick_smoothing_witness:
  "sample_due 1025 scenario_E \<and> currentPwm scenario_E = 100 \<and>
   target_duty 255 (effectiveAmp (motorLevel scenario_E)) = 200 \<and>
   currentPwm (sampler (\<lambda>p. 255) 1025 scenario_E) = 128 \<and>
   last_duty (sink (sampler (\<lambda>p. 255) 1025 scenario_E)) = Some 128 \<and>
   smooth_f32 SMOOTH_ALPHA 200 100 = 128 \<and>
   smooth_f32 SMOOTH_ALPHA 0 90 = 65 \<and>
   min 90 0 \<le> smooth_f32 (35 / 100) 0 90 \<and> smooth_f32 (35 / 100) 0 90 \<le> max 90 0"
proof -
  have d: "sample_due 1025 scenario_E"
    by (simp add: scenario_E_def sample_due_def running_state_eq SAMPLE_INTERVAL_MS_def
        SAMPLE_HZ_def word_le_nat_alt)
  have e: "effectiveAmp 222 = 200"
    by (simp add: effectiveAmp_def map_long_def DEFAULT_AMPLITUDE_def)
  have f: "currentPwm scenario_E = 100" "motorLevel scenario_E = 222"
    by (simp_all add: scenario_E_def)
  have g: "target_duty 255 (effectiveAmp (motorLevel scenario_E)) = 200"
    by (simp add: f e target_duty_def)
  have h: "round (SMOOTH_ALPHA * real_of_int 200 + (1 - SMOOTH_ALPHA) * real_of_int 100) = 128"
    by (simp add: SMOOTH_ALPHA_def round_def)
  have i: "round (SMOOTH_ALPHA * real_of_int 0 + (1 - SMOOTH_ALPHA) * real_of_int 90) = 65"
    by (simp add: SMOOTH_ALPHA_def round_def)
  from sample_tick_smoothing [of 1025 scenario_E 200 "\<lambda>p. 255" "35 / 100" 90 0] d f g h i
  show ?thesis by simp
qed

text \<open>
  Claim C6. In every reachable state in which the motor is not running, the last duty
  written to the sink is 0 (and \<open>currentPwm\<close> is 0). In such a state the sampler, the
  watchdog and a whole iteration of \<open>loop\<close> without a frame leave the state as it is,
  and no frame writes to the sink, so the duty stays 0 until the motor is started.
\<close>

theorem stopped_duty_zero:
  assumes "reachable inoise8 s" and "\<not> motorRunning s"
  shows "last_duty (sink s) = Some 0 \<and> currentPwm s = 0 \<and>
         sampler inoise8 now s = s \<and> watchdog now s = s \<and>
         loop_iter inoise8 None now s = s \<and>
         sink (deliver c s) = sink s"
proof -
  from assms have i: "last_duty (sink s) = Some 0" "currentPwm s = 0"
    using reachable_inv [OF assms(1)] by (simp_all add: controller_inv_def)
  have sa: "sampler inoise8 now s = s"
    using assms(2) by (simp add: sampler_idle sample_due_def)
  have wa: "watchdog now s = s"
    using assms(2) by (simp add: watchdog_step)
  have lo: "loop_iter inoise8 None now s = s"
    by (simp add: loop_iter_def wa sa)
  have "sink (deliver c s) = sink s"
  proof (cases "processed c")
    case False
    then show ?thesis by (simp add: dropped_step)
  next
    case True
    then show ?thesis
      using assms(2) by (cases "channel_value c = 0") (simp_all add: zero_step nonzero_step)
  qed
  with i sa wa lo show ?thesis by blast
qed

theorem stopped_duty_zero_witness:
  "reachable (\<lambda>p. 128) (watchdog 31000 running_state) \<and>
   \<not> motorRunning (watchdog 31000 running_state) \<and>
   last_duty (sink (watchdog 31000 running_state)) = Some 0 \<and>
   sampler (\<lambda>p. 128) 32000 (watchdog 31000 running_state) = watchdog 31000 running_state"
proof -
  have r: "reachable (\<lambda>p. 128) (watchdog 31000 running_state)"
    unfolding running_state_def by (intro reach_watchdog reach_frame reach_setup)
  have n: "\<not> motorRunning (watchdog 31000 running_state)"
    by (simp add: watchdog_step running_state_eq DMX_TIMEOUT_MS_def)
  from stopped_duty_zero [OF r n, of 32000] r n show ?thesis by simp
qed

text \<open>
  Claim C7. A frame of another universe, or one whose length does not reach
  \<open>MOTOR_CHANNEL\<close>, leaves the whole state as it is.
\<close>

theorem dropped_frame_no_change: 
  "universe c \<noteq> ARTNET_UNIVERSE \<or> len c < MOTOR_CHANNEL \<Longrightarrow> deliver c s = s"
  by (auto simp: deliver_def onDmxFrame_def)

theorem dropped_frame_no_change_witness:
  "deliver (frame_of 1 512 9 3000) running_state = running_state \<and>
   deliver (frame_of 0 1 9 3000) running_state = running_state"
  using dropped_frame_no_change [of "frame_of 1 512 9 3000" running_state] dropped_frame_no_change [of "frame_of 0 1 9 3000" running_state]
  by (simp add: ARTNET_UNIVERSE_def MOTOR_CHANNEL_def word_less_nat_alt)

text \<open>
  Claim C8. In a reachable state, a processed frame has exactly one of two effects. With
  channel value 0 the count is incremented (and set back to 0 when the increment reaches
  the threshold), and the level is not taken from the frame: it stays, or the stop
  transition clears it. With a channel value above 0 the level becomes that value, and the
  count is not incremented but reset.
\<close>

theorem frame_exactly_one_effect:
  assumes "reachable inoise8 s" and "processed c"
  shows "((channel_value c = 0 \<and>
            zeroFrameCount (deliver c s) =
              (if zeroFrameCount s + 1 = ZERO_FRAMES_TO_OFF then 0 else zeroFrameCount s + 1))
          \<noteq> (0 < channel_value c \<and> motorLevel (deliver c s) = channel_value c)) \<and>
         (channel_value c = 0 \<longrightarrow>
            zeroFrameCount (deliver c s) =
              (if zeroFrameCount s + 1 = ZERO_FRAMES_TO_OFF then 0 else zeroFrameCount s + 1) \<and>
            (motorLevel (deliver c s) = motorLevel s \<or>
             motorRunning s \<and> \<not> motorRunning (deliver c s) \<and> motorLevel (deliver c s) = 0)) \<and>
         (0 < channel_value c \<longrightarrow>
            motorLevel (deliver c s) = channel_value c \<and>
            zeroFrameCount (deliver c s) = 0 \<and>
            zeroFrameCount (deliver c s) \<noteq> zeroFrameCount s + 1)"
proof -
  have z: "zeroFrameCount s < ZERO_FRAMES_TO_OFF"
    using reachable_inv [OF assms(1)] by (simp add: controller_inv_def)
  note n = zfc_below_succ [OF z]
  have th: "ZERO_FRAMES_TO_OFF \<le> zeroFrameCount s + 1 \<longleftrightarrow> zeroFrameCount s + 1 = ZERO_FRAMES_TO_OFF"
    using n by auto
  show ?thesis
  proof (cases "channel_value c = 0")
    case True
    then show ?thesis
      using assms(2) by (simp add: zero_step th)
  next
    case False
    then have "0 < channel_value c" by (simp add: word_neq_0_conv)
    with False n show ?thesis
      using assms(2) by (simp add: nonzero_step)
  qed
qed

theorem frame_exactly_one_effect_witness:
  "zeroFrameCount (deliver (frame_of 0 512 0 2000) running_state) = 1 \<and>
   motorLevel (deliver (frame_of 0 512 0 2000) running_state) = 200 \<and>
   motorLevel (deliver (frame_of 0 512 9 3000) running_state) = 9 \<and>
   zeroFrameCount (deliver (frame_of 0 512 9 3000) running_state) = 0"
proof -
  have r: "reachable (\<lambda>p. 128) running_state"
    unfolding running_state_def by (intro reach_frame reach_setup)
  from frame_exactly_one_effect [OF r, of "frame_of 0 512 0 2000"] frame_exactly_one_effect [OF r, of "frame_of 0 512 9 3000"]
  show ?thesis
    by (simp add: running_state_eq ZERO_FRAMES_TO_OFF_def zero_step nonzero_step word_le_nat_alt)
qed

text \<open>
  Claim C9. In every reachable state \<open>currentPwm\<close> and \<open>motorLevel\<close> are in
  \<open>[0,255]\<close> and \<open>zeroFrameCount\<close> is at most \<open>ZERO_FRAMES_TO_OFF\<close>; the count the
  callback compares after its increment does not exceed the threshold and has not
  wrapped. The callback, the watchdog and the sampler preserve the ranges. A nonzero frame
  resets the count, and so does every stop, by the callback and by the watchdog.
\<close>

theorem state_ranges_preserved:
  "(reachable inoise8 s \<longrightarrow>
      ranges_ok s \<and> zeroFrameCount s + 1 \<le> ZERO_FRAMES_TO_OFF \<and>
      zeroFrameCount s < zeroFrameCount s + 1) \<and>
   (ranges_ok s \<longrightarrow>
      ranges_ok (deliver c s) \<and> ranges_ok (watchdog now s) \<and>
      ranges_ok (sampler inoise8 now s)) \<and>
   (processed c \<and> channel_value c \<noteq> 0 \<longrightarrow> zeroFrameCount (deliver c s) = 0) \<and>
   (motorRunning s \<and> \<not> motorRunning (deliver c s) \<longrightarrow> zeroFrameCount (deliver c s) = 0) \<and>
   (motorRunning s \<and> \<not> motorRunning (watchdog now s) \<longrightarrow> zeroFrameCount (watchdog now s) = 0)"
proof (intro conjI impI)
  assume r: "reachable inoise8 s"
  note i = reachable_inv [OF r]
  then have z: "zeroFrameCount s < ZERO_FRAMES_TO_OFF"
    by (simp add: controller_inv_def)
  from i show "ranges_ok s"
    by (simp add: controller_inv_def ranges_ok_def DEFAULT_AMPLITUDE_def uint8_le_255
        order.strict_implies_order)
  from zfc_below_succ [OF z]
  show "zeroFrameCount s + 1 \<le> ZERO_FRAMES_TO_OFF" "zeroFrameCount s < zeroFrameCount s + 1"
    by simp_all
next
  assume "ranges_ok s"
  then show "ranges_ok (deliver c s)" "ranges_ok (watchdog now s)"
    "ranges_ok (sampler inoise8 now s)"
    by (simp_all add: ranges_deliver ranges_watchdog ranges_sampler)
next
  assume "processed c \<and> channel_value c \<noteq> 0"
  then show "zeroFrameCount (deliver c s) = 0"
    by (simp add: nonzero_step)
next
  assume a: "motorRunning s \<and> \<not> motorRunning (deliver c s)"
  show "zeroFrameCount (deliver c s) = 0"
  proof (cases "processed c")
    case False
    with a show ?thesis by (simp add: dropped_step)
  next
    case True
    with a show ?thesis
      by (cases "channel_value c = 0") (simp_all add: zero_step nonzero_step split: if_splits)
  qed
next
  assume "motorRunning s \<and> \<not> motorRunning (watchdog now s)"
  then show "zeroFrameCount (watchdog now s) = 0"
    by (simp add: watchdog_step split: if_splits)
qed

theorem state_ranges_preserved_witness:
  "reachable (\<lambda>p. 255) (sampler (\<lambda>p. 255) 1025 running_state) \<and>
   ranges_ok (sampler (\<lambda>p. 255) 1025 running_state) \<and>
   ranges_ok (deliver (frame_of 0 512 0 2000) (sampler (\<lambda>p. 255) 1025 running_state)) \<and>
   zeroFrameCount (deliver (frame_of 0 512 9 3000) (running_state\<lparr> zeroFrameCount := 3 \<rparr>)) = 0 \<and>
   zeroFrameCount (deliver (frame_of 0 512 0 2000) (running_state\<lparr> zeroFrameCount := 4 \<rparr>)) = 0 \<and>
   zeroFrameCount (watchdog 31000 (running_state\<lparr> zeroFrameCount := 3 \<rparr>)) = 0"
proof -
  have r: "reachable (\<lambda>p. 255) (sampler (\<lambda>p. 255) 1025 running_state)"
    unfolding running_state_def by (intro reach_sampler reach_frame reach_setup)
  have p: "processed (frame_of 0 512 9 3000) \<and> channel_value (frame_of 0 512 9 3000) \<noteq> 0"
    by simp
  have d: "motorRunning (running_state\<lparr> zeroFrameCount := 4 \<rparr>) \<and>
           \<not> motorRunning (deliver (frame_of 0 512 0 2000) (running_state\<lparr> zeroFrameCount := 4 \<rparr>))"
    by (simp add: zero_step running_state_eq ZERO_FRAMES_TO_OFF_def)
  have w: "motorRunning (running_state\<lparr> zeroFrameCount := 3 \<rparr>) \<and>
           \<not> motorRunning (watchdog 31000 (running_state\<lparr> zeroFrameCount := 3 \<rparr>))"
    by (simp add: watchdog_step running_state_eq DMX_TIMEOUT_MS_def)
  from state_ranges_preserved [of "\<lambda>p. 255" "sampler (\<lambda>p. 255) 1025 running_state" "frame_of 0 512 0 2000" 0] r
       state_ranges_preserved [of "\<lambda>p. 255" "running_state\<lparr> zeroFrameCount := 3 \<rparr>" "frame_of 0 512 9 3000" 31000] p w
       state_ranges_preserved [of "\<lambda>p. 255" "running_state\<lparr> zeroFrameCount := 4 \<rparr>" "frame_of 0 512 0 2000" 0] d
  show ?thesis by blast
qed

text \<open>
  Claim C10. In every reachable state \<open>currentPwm\<close>, which is the last duty written,
  and every duty ever written to the sink are between 0 and \<open>DEFAULT_AMPLITUDE = 230\<close>:
  the amplitude is at most \<open>DEFAULT_AMPLITUDE\<close>, the target at most the amplitude, and
  the sampler's next duty again at most \<open>DEFAULT_AMPLITUDE\<close>.
\<close>

theorem duty_bounded_by_amplitude:
  assumes "reachable inoise8 s"
  shows "0 \<le> currentPwm s \<and> currentPwm s \<le> DEFAULT_AMPLITUDE \<and>
         last_duty (sink s) = Some (currentPwm s) \<and>
         (\<forall>d \<in> set (duties (sink s)). 0 \<le> d \<and> d \<le> DEFAULT_AMPLITUDE) \<and>
         uint (effectiveAmp (motorLevel s)) \<le> DEFAULT_AMPLITUDE \<and>
         target_duty n (effectiveAmp (motorLevel s)) \<le> uint (effectiveAmp (motorLevel s)) \<and>
         currentPwm (sampler inoise8 now s) \<le> DEFAULT_AMPLITUDE \<and>
         DEFAULT_AMPLITUDE = 230"
proof -
  have "controller_inv s"
    using assms by (rule reachable_inv)
  moreover have "controller_inv (sampler inoise8 now s)"
    by (rule reachable_inv [OF reach_sampler [OF assms]])
  ultimately show ?thesis
    using effectiveAmp_le [of "motorLevel s"] target_duty_bounds [of n "effectiveAmp (motorLevel s)"]
    by (simp add: controller_inv_def DEFAULT_AMPLITUDE_def)
qed

theorem duty_bounded_by_amplitude_witness:
  "reachable (\<lambda>p. 255) (sampler (\<lambda>p. 255) 1025 running_state) \<and>
   currentPwm (sampler (\<lambda>p. 255) 1025 running_state) = 50 \<and>
   currentPwm (sampler (\<lambda>p. 255) 1025 running_state) \<le> DEFAULT_AMPLITUDE \<and>
   duties (sink (sampler (\<lambda>p. 255) 1025 running_state)) = [50, 0, 0]"
proof -
  have r: "reachable (\<lambda>p. 255) (sampler (\<lambda>p. 255) 1025 running_state)"
    unfolding running_state_def by (intro reach_sampler reach_frame reach_setup)
  have d: "sample_due 1025 running_state"
    by (simp add: sample_due_def running_state_eq SAMPLE_INTERVAL_MS_def SAMPLE_HZ_def word_le_nat_alt)
  have e: "effectiveAmp 200 = 180"
    by (simp add: effectiveAmp_def map_long_def DEFAULT_AMPLITUDE_def)
  have v: "currentPwm (sampler (\<lambda>p. 255) 1025 running_state) = 50"
    "duties (sink (sampler (\<lambda>p. 255) 1025 running_state)) = [50, 0, 0]"
    unfolding sampler_due [OF d]
    by (simp_all add: running_state_eq e target_duty_def smooth_def
        SMOOTH_ALPHA_def c_round_def constrain_def)
  from duty_bounded_by_amplitude [OF r, of 0 0] r v show ?thesis by simp
qed

end
